theory Spec2Isabelle
  imports Complex_Main "HOL-Library.Multiset" "HOL-Library.Product_Lexorder"
begin

section \<open>Data model (app/models/travel.py)\<close>

text \<open>
  Python \<open>float\<close> values (prices, ratings, scores) are modelled as exact reals: rounding is
  not part of the model. Python \<open>int\<close> values are \<open>int\<close>, \<open>Optional[t]\<close> is \<open>t option\<close>,
  dates are day ordinals. Fields of the Pydantic models that none of the modelled functions
  reads (segments, addresses, booking links, timestamps, narrative texts) are left out.
\<close>

datatype TravelStyle = RELAXED | BALANCED | PACKED | ADVENTURE | LUXURY | BUDGET

fun style_value :: "TravelStyle \<Rightarrow> string" where
  "style_value RELAXED = ''relaxed''"
| "style_value BALANCED = ''balanced''"
| "style_value PACKED = ''packed''"
| "style_value ADVENTURE = ''adventure''"
| "style_value LUXURY = ''luxury''"
| "style_value BUDGET = ''budget''"

record TravelIntent =
  origin :: "string option"
  destination :: "string option"
  departure_date :: "int option"
  return_date :: "int option"
  duration_days :: "int option"
  num_adults :: int
  num_children :: int
  num_infants :: int
  total_budget :: "real option"
  travel_style :: TravelStyle

record FlightOption =
  total_price :: real
  currency :: string
  total_duration_minutes :: int
  number_of_stops :: int
  source :: string

record AccommodationOption =
  name :: string
  htype :: string
  price_per_night :: real
  htotal_price :: real
  rating :: "real option"
  amenities :: "string list"
  distance_to_center_km :: "real option"
  hsource :: string

record Itinerary =
  title :: string
  style_tag :: string
  flights :: FlightOption
  accommodations :: "AccommodationOption list"
  flight_cost :: real
  accommodation_cost :: real
  activities_cost :: real
  estimated_food_cost :: real
  total_cost :: real

record AgentState =
  user_message :: string
  parsed_intent :: "TravelIntent option"
  flight_options :: "FlightOption list"
  accommodation_options :: "AccommodationOption list"
  itineraries :: "Itinerary list"
  agent_messages :: "string list"
  current_step :: string
  errors :: "string list"

subsection \<open>Python values: exceptions and truthiness\<close>

text \<open>
  An exception is a value carrying the text that \<open>str(e)\<close> yields. \<open>ZeroDivisionError\<close> is
  what a division by zero raises, \<open>ValueError\<close> what \<open>max\<close> of an empty sequence raises,
  \<open>TypeError\<close> what arithmetic on \<open>None\<close> raises; \<open>ProviderError\<close> stands for whatever an
  external call raises.
\<close>

datatype py_exn = ZeroDivisionError string | ValueError string | TypeError string | ProviderError string

fun str_exn :: "py_exn \<Rightarrow> string" where
  "str_exn (ZeroDivisionError m) = m"
| "str_exn (ValueError m) = m"
| "str_exn (TypeError m) = m"
| "str_exn (ProviderError m) = m"

text \<open>\<open>if x:\<close> on an \<open>Optional[float]\<close>: false for \<open>None\<close> and for \<open>0.0\<close>.\<close>

fun truthy_float :: "real option \<Rightarrow> bool" where
  "truthy_float None = False"
| "truthy_float (Some x) = (x \<noteq> 0)"

text \<open>\<open>if s:\<close> on an \<open>Optional[str]\<close>: false for \<open>None\<close> and for the empty string.\<close>

fun truthy_str :: "string option \<Rightarrow> bool" where
  "truthy_str None = False"
| "truthy_str (Some s) = (s \<noteq> [])"

text \<open>\<open>max(...)\<close> over a sequence: it raises on the empty one.\<close>

fun py_max :: "'a::linorder list \<Rightarrow> py_exn + 'a" where
  "py_max [] = Inl (ValueError ''max() arg is an empty sequence'')"
| "py_max (x # xs) = Inr (fold max xs x)"

text \<open>True division \<open>a / b\<close>; the message is the one CPython gives for the operand types.\<close>

definition float_div :: "real \<Rightarrow> real \<Rightarrow> py_exn + real" where
  "float_div a b = (if b = 0 then Inl (ZeroDivisionError ''float division by zero'') else Inr (a / b))"

definition int_div :: "int \<Rightarrow> int \<Rightarrow> py_exn + real" where
  "int_div a b = (if b = 0 then Inl (ZeroDivisionError ''division by zero'') else Inr (real_of_int a / real_of_int b))"

text \<open>A list comprehension whose element expression may raise: the first exception wins.\<close>

fun comprehend :: "('a \<Rightarrow> py_exn + 'b) \<Rightarrow> 'a list \<Rightarrow> py_exn + 'b list" where
  "comprehend g [] = Inr []"
| "comprehend g (x # xs) =
     (case g x of Inl e \<Rightarrow> Inl e
      | Inr y \<Rightarrow> (case comprehend g xs of Inl e \<Rightarrow> Inl e | Inr ys \<Rightarrow> Inr (y # ys)))"

text \<open>
  \<open>list.sort(key=k, reverse=True)\<close> is stable: elements with equal keys keep their order.
  \<open>sort_key\<close> is a stable ascending sort, so the descending sort negates the key.
\<close>

definition sort_desc :: "('a \<Rightarrow> real) \<Rightarrow> 'a list \<Rightarrow> 'a list" where
  "sort_desc k xs = sort_key (\<lambda>x. - k x) xs"

section \<open>Dual optimizer for flights (SearchOrchestratorAgent._optimize_flights)\<close>

text \<open>The comprehension \<open>[f for f in flights if f.total_price <= max_flight_cost]\<close>
  with \<open>max_flight_cost = budget * 0.4\<close>.\<close>

definition budget_filter_flights :: "real \<Rightarrow> FlightOption list \<Rightarrow> FlightOption list" where
  "budget_filter_flights budget fls =
     (let max_flight_cost = budget * 0.4
      in filter (\<lambda>f. total_price f \<le> max_flight_cost) fls)"

text \<open>The nested function \<open>score_flight\<close>; \<open>fls\<close> is the pool \<open>flights\<close> it closes over.\<close>

definition score_flight :: "FlightOption list \<Rightarrow> FlightOption \<Rightarrow> py_exn + real" where
  "score_flight fls flight =
     (case py_max (map total_price fls) of
        Inl e \<Rightarrow> Inl e
      | Inr max_price \<Rightarrow>
     (case float_div (total_price flight) max_price of
        Inl e \<Rightarrow> Inl e
      | Inr pq \<Rightarrow>
     (case py_max (map total_duration_minutes fls) of
        Inl e \<Rightarrow> Inl e
      | Inr max_duration \<Rightarrow>
     (case int_div (total_duration_minutes flight) max_duration of
        Inl e \<Rightarrow> Inl e
      | Inr dq \<Rightarrow>
         (let price_score = 1 - pq;
              duration_score = 1 - dq;
              stops_score = 1 - real_of_int (number_of_stops flight) / 3
          in Inr (price_score * 0.5 + duration_score * 0.3 + stops_score * 0.2))))))"

text \<open>Lines 205-210: score every flight, sort by score descending, keep the first ten.\<close>

definition rank_flights :: "FlightOption list \<Rightarrow> py_exn + FlightOption list" where
  "rank_flights fls =
     (case comprehend (\<lambda>f. case score_flight fls f of Inl e \<Rightarrow> Inl e | Inr s \<Rightarrow> Inr (f, s)) fls of
        Inl e \<Rightarrow> Inl e
      | Inr flights_with_scores \<Rightarrow> Inr (map fst (take 10 (sort_desc snd flights_with_scores))))"

fun optimize_flights :: "FlightOption list \<Rightarrow> real option \<Rightarrow> py_exn + FlightOption list" where
  "optimize_flights [] budget = Inr []"
| "optimize_flights fls budget =
     (if truthy_float budget then
        (case budget of
           Some b \<Rightarrow>
             (let kept = budget_filter_flights b fls
              in if kept = [] then Inr [] else rank_flights kept)
         | None \<Rightarrow> rank_flights fls)
      else rank_flights fls)"

section \<open>Dual optimizer for lodging (SearchOrchestratorAgent._optimize_hotels)\<close>

text \<open>The nested function \<open>score_hotel\<close>; \<open>hotels\<close> is the pool it closes over.
  \<open>max(...) or 1\<close> guards the division.\<close>

definition score_hotel :: "AccommodationOption list \<Rightarrow> string \<Rightarrow> AccommodationOption \<Rightarrow> py_exn + real" where
  "score_hotel hotels style hotel =
     (case py_max (map htotal_price hotels) of
        Inl e \<Rightarrow> Inl e
      | Inr m \<Rightarrow> Inr
     (let max_price = (if m = 0 then 1 else m);
          price_score =
            (if style \<in> set [''budget'', ''backpacker''] then 1 - htotal_price hotel / max_price
             else if style \<in> set [''luxury'', ''comfort''] then 0.5
             else 0.7 - (htotal_price hotel / max_price) * 0.4);
          rating_score = (case rating hotel of None \<Rightarrow> 0 | Some r \<Rightarrow> r) / 5;
          location_score =
            (if truthy_float (distance_to_center_km hotel)
             then (case distance_to_center_km hotel of
                     Some d \<Rightarrow> max 0 (1 - d / 10)
                   | None \<Rightarrow> 0.5)
             else 0.5);
          style_bonus =
            (if style = ''luxury'' \<and> truthy_float (rating hotel) \<and> (case rating hotel of Some r \<Rightarrow> r \<ge> 4.5 | None \<Rightarrow> False)
               then 0.2
             else if style = ''family'' \<and> ''Kids Club'' \<in> set (amenities hotel) then 0.2
             else if style = ''budget'' \<and> price_per_night hotel < 80 then 0.2
             else 0)
      in price_score * 0.35 + rating_score * 0.35 + location_score * 0.2 + style_bonus * 0.1))"

text \<open>Lines 272-289: the three price lists filled in score order, then the slices.\<close>

definition select_by_price_range :: "AccommodationOption list \<Rightarrow> AccommodationOption list" where
  "select_by_price_range ranked =
     (let low = filter (\<lambda>h. price_per_night h < 100) ranked;
          mid = filter (\<lambda>h. \<not> price_per_night h < 100 \<and> price_per_night h < 200) ranked;
          high = filter (\<lambda>h. \<not> price_per_night h < 100 \<and> \<not> price_per_night h < 200) ranked;
          selected_hotels = take 4 low @ take 4 mid @ take 2 high
      in take 15 selected_hotels)"

fun optimize_hotels ::
  "AccommodationOption list \<Rightarrow> real option \<Rightarrow> string \<Rightarrow> py_exn + AccommodationOption list" where
  "optimize_hotels [] budget style = Inr []"
| "optimize_hotels hotels budget style =
     (let kept = (if truthy_float budget
                  then (case budget of
                          Some b \<Rightarrow> filter (\<lambda>h. htotal_price h \<le> b * 0.4) hotels
                        | None \<Rightarrow> hotels)
                  else hotels)
      in case comprehend (\<lambda>h. case score_hotel kept style h of Inl e \<Rightarrow> Inl e | Inr s \<Rightarrow> Inr (h, s)) kept of
           Inl e \<Rightarrow> Inl e
         | Inr hotels_with_scores \<Rightarrow>
             Inr (select_by_price_range (map fst (sort_desc snd hotels_with_scores))))"

section \<open>Preference re-ranker: diverse selection (TasteProfilerAgent._select_diverse_hotels)\<close>

datatype bucket = Low | Mid | High

definition price_bucket :: "AccommodationOption \<Rightarrow> bucket" where
  "price_bucket hotel =
     (if price_per_night hotel < 100 then Low
      else if price_per_night hotel < 200 then Mid
      else High)"

text \<open>The first loop, with its \<open>break\<close>; the loop state is \<open>selected\<close>, \<open>types_seen\<close>
  and the dictionary \<open>price_buckets\<close>.\<close>

fun diverse_loop ::
  "int \<Rightarrow> (AccommodationOption \<times> real) list
     \<Rightarrow> AccommodationOption list \<times> string list \<times> (bucket \<Rightarrow> nat)
     \<Rightarrow> AccommodationOption list \<times> string list \<times> (bucket \<Rightarrow> nat)" where
  "diverse_loop max_results [] st = st"
| "diverse_loop max_results ((hotel, score) # rest) (selected, types_seen, price_buckets) =
     (if int (length selected) \<ge> max_results then (selected, types_seen, price_buckets)
      else
        (let b = price_bucket hotel
         in if price_buckets b < 4 \<and> count_list types_seen (htype hotel) < 3
            then diverse_loop max_results rest
                   (selected @ [hotel], types_seen @ [htype hotel], price_buckets(b := price_buckets b + 1))
            else diverse_loop max_results rest (selected, types_seen, price_buckets)))"

text \<open>The second loop: fill the remaining slots from the ranked list.\<close>

fun fill_loop ::
  "(AccommodationOption \<times> real) list \<Rightarrow> AccommodationOption list \<Rightarrow> int \<Rightarrow> AccommodationOption list" where
  "fill_loop [] selected remaining = selected"
| "fill_loop ((hotel, score) # rest) selected remaining =
     (if hotel \<notin> set selected
      then (if remaining - 1 = 0 then selected @ [hotel]
            else fill_loop rest (selected @ [hotel]) (remaining - 1))
      else fill_loop rest selected remaining)"

definition select_diverse_hotels :: "(AccommodationOption \<times> real) list \<Rightarrow> int \<Rightarrow> AccommodationOption list" where
  "select_diverse_hotels scored_hotels max_results =
     (let (selected, types_seen, price_buckets) = diverse_loop max_results scored_hotels ([], [], (\<lambda>b. 0));
          remaining = max_results - int (length selected)
      in if remaining > 0 then fill_loop scored_hotels selected remaining else selected)"

section \<open>Rendering numbers in messages\<close>

definition digit_char :: "nat \<Rightarrow> char" where
  "digit_char d = ''0123456789'' ! d"

fun show_nat :: "nat \<Rightarrow> string" where
  "show_nat n = (if n < 10 then [digit_char n] else show_nat (n div 10) @ [digit_char (n mod 10)])"

definition show_int :: "int \<Rightarrow> string" where
  "show_int i = (if i < 0 then ''-'' @ show_nat (nat (- i)) else show_nat (nat i))"

text \<open>What an f-string prints for an \<open>Optional\<close> field.\<close>

fun show_opt_str :: "string option \<Rightarrow> string" where
  "show_opt_str None = ''None''"
| "show_opt_str (Some s) = s"

fun show_opt_int :: "int option \<Rightarrow> string" where
  "show_opt_int None = ''None''"
| "show_opt_int (Some i) = show_int i"

section \<open>Itinerary synthesizer (app/agents/synthesis_agent.py)\<close>

text \<open>The validator \<open>Itinerary.calculate_total\<close>: a total of zero is replaced by the sum
  of the four components, any other total is kept.\<close>

definition calculate_total :: "real \<Rightarrow> real \<Rightarrow> real \<Rightarrow> real \<Rightarrow> real \<Rightarrow> real" where
  "calculate_total v fc ac actc food = (if v = 0 then fc + ac + actc + food else v)"

text \<open>The constructor call \<open>Itinerary(...)\<close> with the validator applied.\<close>

definition new_Itinerary ::
  "string \<Rightarrow> string \<Rightarrow> FlightOption \<Rightarrow> AccommodationOption list \<Rightarrow> real \<Rightarrow> real \<Rightarrow> real \<Rightarrow> real \<Rightarrow> real \<Rightarrow> Itinerary" where
  "new_Itinerary t tag fl hs fc ac actc food tot =
     \<lparr> title = t, style_tag = tag, flights = fl, accommodations = hs,
       flight_cost = fc, accommodation_cost = ac, activities_cost = actc,
       estimated_food_cost = food, total_cost = calculate_total tot fc ac actc food \<rparr>"

text \<open>\<open>duration_days or 7\<close>.\<close>

fun or_int :: "int option \<Rightarrow> int \<Rightarrow> int" where
  "or_int None d = d"
| "or_int (Some v) d = (if v = 0 then d else v)"

text \<open>\<open>sorted(xs, key=k)\<close> where computing a key may raise: the keys are computed first,
  in order, and the sort is stable.\<close>

definition sorted_by :: "('a \<Rightarrow> py_exn + real) \<Rightarrow> 'a list \<Rightarrow> py_exn + 'a list" where
  "sorted_by k xs =
     (case comprehend k xs of
        Inl e \<Rightarrow> Inl e
      | Inr ks \<Rightarrow> Inr (map fst (sort_key snd (zip xs ks))))"

text \<open>In each of the three functions the whole body is inside \<open>try ... except Exception:
  return None\<close>, so an exception (a missing intent, a zero divisor) gives \<open>None\<close>.\<close>

definition create_budget_itinerary :: "AgentState \<Rightarrow> Itinerary option" where
  "create_budget_itinerary state =
     (case sort_key total_price (flight_options state) of
        [] \<Rightarrow> None
      | selected_flight # _ \<Rightarrow>
         (case sort_key price_per_night (accommodation_options state) of
            [] \<Rightarrow> None
          | h # _ \<Rightarrow>
             (let selected_hotels = [h];
                  fc = total_price selected_flight;
                  ac = sum_list (map htotal_price selected_hotels);
                  actc = 0
              in case parsed_intent state of
                   None \<Rightarrow> None
                 | Some intent \<Rightarrow>
                    (let food = real_of_int (or_int (duration_days intent) 7 * 40 * (num_adults intent + num_children intent))
                     in Some (new_Itinerary (''Budget Option - '' @ show_opt_str (destination intent)) ''Budget''
                               selected_flight selected_hotels fc ac actc food (fc + ac + actc + food))))))"

text \<open>The key of the balanced flight sort, \<open>f.total_price / (24 - f.number_of_stops * 8)\<close>.\<close>

definition balanced_key :: "FlightOption \<Rightarrow> py_exn + real" where
  "balanced_key f = float_div (total_price f) (real_of_int (24 - number_of_stops f * 8))"

definition create_balanced_itinerary :: "AgentState \<Rightarrow> Itinerary option" where
  "create_balanced_itinerary state =
     (case sorted_by balanced_key (flight_options state) of
        Inl e \<Rightarrow> None
      | Inr [] \<Rightarrow> None
      | Inr fls \<Rightarrow>
         (let selected_flight = fls ! (length fls div 2);
              hotels_by_price = sort_key price_per_night (accommodation_options state)
          in if hotels_by_price = [] then None
             else
               (let mid_index = (if length hotels_by_price = 2 then 0 else length hotels_by_price div 2);
                    selected_hotels = [hotels_by_price ! mid_index];
                    fc = total_price selected_flight;
                    ac = sum_list (map htotal_price selected_hotels);
                    actc = 0
                in case parsed_intent state of
                     None \<Rightarrow> None
                   | Some intent \<Rightarrow>
                      (let food = real_of_int (or_int (duration_days intent) 7 * 60 * (num_adults intent + num_children intent))
                       in Some (new_Itinerary (''Balanced Option - '' @ show_opt_str (destination intent)) ''Balanced Family''
                                 selected_flight selected_hotels fc ac actc food (fc + ac + actc + food))))))"

text \<open>The premium flight key is the pair \<open>(number_of_stops, total_duration_minutes)\<close>, which
  Python compares lexicographically.\<close>

definition create_premium_itinerary :: "AgentState \<Rightarrow> Itinerary option" where
  "create_premium_itinerary state =
     (case sort_key (\<lambda>f. (number_of_stops f, total_duration_minutes f)) (flight_options state) of
        [] \<Rightarrow> None
      | selected_flight # _ \<Rightarrow>
         (case sort_desc price_per_night (accommodation_options state) of
            [] \<Rightarrow> None
          | h # _ \<Rightarrow>
             (let selected_hotels = [h];
                  fc = total_price selected_flight;
                  ac = sum_list (map htotal_price selected_hotels);
                  actc = 0
              in case parsed_intent state of
                   None \<Rightarrow> None
                 | Some intent \<Rightarrow>
                    (let food = real_of_int (or_int (duration_days intent) 7 * 100 * (num_adults intent + num_children intent))
                     in Some (new_Itinerary (''Luxury Option - '' @ show_opt_str (destination intent)) ''Luxury''
                               selected_flight selected_hotels fc ac actc food (fc + ac + actc + food))))))"

text \<open>\<open>if x: itineraries.append(x)\<close>.\<close>

fun append_if :: "'a list \<Rightarrow> 'a option \<Rightarrow> 'a list" where
  "append_if xs None = xs"
| "append_if xs (Some x) = xs @ [x]"

definition synthesize :: "AgentState \<Rightarrow> AgentState" where
  "synthesize state =
     (let state1 = state\<lparr>agent_messages := agent_messages state @ [''Synthesis Agent: Creating your personalized itineraries...'']\<rparr>
      in if flight_options state1 = [] \<or> accommodation_options state1 = [] then
           (let error_msg = ''Synthesis Agent: Insufficient search results''
            in state1\<lparr>errors := errors state1 @ [error_msg],
                      agent_messages := agent_messages state1 @ [error_msg]\<rparr>)
         else
           (let its = append_if (append_if (append_if [] (create_budget_itinerary state1))
                                   (create_balanced_itinerary state1))
                        (create_premium_itinerary state1)
            in state1\<lparr>itineraries := its,
                      agent_messages := agent_messages state1 @
                        [''Synthesis Agent: Created '' @ show_nat (length its) @ '' complete itineraries''],
                      current_step := ''synthesis_complete''\<rparr>))"

section \<open>Search orchestrator (SearchOrchestratorAgent.search)\<close>

text \<open>
  \<open>asyncio.gather(..., return_exceptions=True)\<close> hands back, for each of the two tasks,
  either the exception it raised (\<open>Inl\<close>) or its list (\<open>Inr\<close>). Lines 75-90 store them.
\<close>

definition handle_results ::
  "py_exn + FlightOption list \<Rightarrow> py_exn + AccommodationOption list \<Rightarrow> AgentState \<Rightarrow> AgentState" where
  "handle_results flight_results hotel_results state =
     (let state1 =
            (case flight_results of
               Inl e \<Rightarrow> state\<lparr>errors := errors state @ [''Flight search error: '' @ str_exn e],
                              flight_options := []\<rparr>
             | Inr fls \<Rightarrow> state\<lparr>flight_options := fls\<rparr>)
      in case hotel_results of
           Inl e \<Rightarrow> state1\<lparr>errors := errors state1 @ [''Hotel search error: '' @ str_exn e],
                           accommodation_options := []\<rparr>
         | Inr hotels \<Rightarrow> state1\<lparr>accommodation_options := hotels\<rparr>)"

text \<open>The body of the \<open>try\<close> block from the gather on. An exception leaves the block with
  the state as mutated so far.\<close>

definition search_try ::
  "py_exn + FlightOption list \<Rightarrow> py_exn + AccommodationOption list \<Rightarrow> TravelIntent \<Rightarrow> AgentState
     \<Rightarrow> (py_exn \<times> AgentState) + AgentState" where
  "search_try flight_results hotel_results intent state =
     (let state1 = handle_results flight_results hotel_results state
      in case optimize_flights (flight_options state1) (total_budget intent) of
           Inl e \<Rightarrow> Inl (e, state1)
         | Inr fls \<Rightarrow>
            (let state2 = state1\<lparr>flight_options := fls\<rparr>
             in case optimize_hotels (accommodation_options state2) (total_budget intent)
                       (style_value (travel_style intent)) of
                  Inl e \<Rightarrow> Inl (e, state2)
                | Inr hotels \<Rightarrow>
                   (let state3 = state2\<lparr>accommodation_options := hotels\<rparr>
                    in Inr (state3\<lparr>agent_messages := agent_messages state3 @
                                      [''Search Orchestrator: Found '' @ show_nat (length (flight_options state3))
                                         @ '' flights and '' @ show_nat (length (accommodation_options state3))
                                         @ '' hotels''],
                                    current_step := ''search_complete''\<rparr>))))"

text \<open>The whole method: it either returns a state (\<open>Inr\<close>) or raises (\<open>Inl\<close>).\<close>

definition search ::
  "py_exn + FlightOption list \<Rightarrow> py_exn + AccommodationOption list \<Rightarrow> AgentState \<Rightarrow> py_exn + AgentState" where
  "search flight_results hotel_results state =
     (case parsed_intent state of
        None \<Rightarrow>
          (let error_msg = ''Search Orchestrator: No parsed intent found''
           in Inr (state\<lparr>errors := errors state @ [error_msg],
                          agent_messages := agent_messages state @ [error_msg]\<rparr>))
      | Some intent \<Rightarrow>
          (let state0 = state\<lparr>agent_messages := agent_messages state @
                                 [''Search Orchestrator: Searching for flights and hotels...'']\<rparr>
           in case search_try flight_results hotel_results intent state0 of
                Inr state' \<Rightarrow> Inr state'
              | Inl (e, state') \<Rightarrow>
                 (let error_msg = ''Search Orchestrator Error: '' @ str_exn e
                  in Inr (state'\<lparr>errors := errors state' @ [error_msg],
                                  agent_messages := agent_messages state' @ [error_msg]\<rparr>))))"

section \<open>Workflow (app/agents/workflow.py)\<close>

datatype decision = Continue | End

definition should_continue_after_intent :: "AgentState \<Rightarrow> decision \<times> AgentState" where
  "should_continue_after_intent state =
     (case parsed_intent state of
        None \<Rightarrow> (End, state)
      | Some intent \<Rightarrow>
          if \<not> truthy_str (destination intent) \<and> \<not> truthy_float (total_budget intent)
          then (End, state\<lparr>errors := errors state @ [''Missing critical information: destination or budget'']\<rparr>)
          else (Continue, state))"

definition should_continue_after_search :: "AgentState \<Rightarrow> decision \<times> AgentState" where
  "should_continue_after_search state =
     (if flight_options state = [] \<and> accommodation_options state = []
      then (End, state\<lparr>errors := errors state @ [''No travel options found matching your criteria'']\<rparr>)
      else if length (flight_options state) = 0
      then (Continue, state\<lparr>errors := errors state @ [''No flights available for your dates'']\<rparr>)
      else (Continue, state))"

text \<open>
  The intent parser node. The language-model call, the output parser and the date and
  description helpers are external: \<open>llm\<close> is their joint outcome on the user message,
  an exception or the finished intent. The node catches every exception.
\<close>

definition parse_intent :: "(string \<Rightarrow> py_exn + TravelIntent) \<Rightarrow> AgentState \<Rightarrow> AgentState" where
  "parse_intent llm state =
     (case llm (user_message state) of
        Inl e \<Rightarrow>
          (let error_msg = ''Intent Parser Error: '' @ str_exn e
           in state\<lparr>errors := errors state @ [error_msg],
                     agent_messages := agent_messages state @ [error_msg]\<rparr>)
      | Inr parsed \<Rightarrow>
          state\<lparr>parsed_intent := Some parsed,
                agent_messages := agent_messages state @
                  [''Intent Parser: Understood your request - '' @ show_opt_int (duration_days parsed) @ '' days ''
                     @ ''to '' @ (if truthy_str (destination parsed) then show_opt_str (destination parsed)
                                  else ''flexible destination'') @ '' ''
                     @ ''for '' @ show_int (num_adults parsed) @ '' adult(s)''
                     @ (if num_children parsed > 0 then '' and '' @ show_int (num_children parsed) @ '' child(ren)'' else [])],
                current_step := ''intent_parsed''\<rparr>)"

text \<open>
  The compiled graph of \<open>_build_graph\<close>: entry \<open>parse_intent\<close>, a conditional edge to
  \<open>search\<close> or to the end, an edge to \<open>taste_profile\<close>, a conditional edge to \<open>synthesize\<close> or
  to the end. The search, taste and synthesis nodes are parameters; a node returns a state
  or raises. Beside the outcome the model returns the names of the nodes that were run, in
  order. The providers are called from the search node only.
\<close>

type_synonym node = "AgentState \<Rightarrow> py_exn + AgentState"

definition ainvoke ::
  "(string \<Rightarrow> py_exn + TravelIntent) \<Rightarrow> node \<Rightarrow> node \<Rightarrow> node \<Rightarrow> AgentState
     \<Rightarrow> string list \<times> (py_exn + AgentState)" where
  "ainvoke llm search_node taste_profile_node synthesis_node state =
     (let s1 = parse_intent llm state
      in case should_continue_after_intent s1 of
           (End, s2) \<Rightarrow> ([''parse_intent''], Inr s2)
         | (Continue, s2) \<Rightarrow>
            (case search_node s2 of
               Inl e \<Rightarrow> ([''parse_intent'', ''search''], Inl e)
             | Inr s3 \<Rightarrow>
                (case taste_profile_node s3 of
                   Inl e \<Rightarrow> ([''parse_intent'', ''search'', ''taste_profile''], Inl e)
                 | Inr s4 \<Rightarrow>
                    (case should_continue_after_search s4 of
                       (End, s5) \<Rightarrow> ([''parse_intent'', ''search'', ''taste_profile''], Inr s5)
                     | (Continue, s5) \<Rightarrow>
                         ([''parse_intent'', ''search'', ''taste_profile'', ''synthesize''], synthesis_node s5)))))"


definition initial_state :: "string \<Rightarrow> AgentState" where
  "initial_state msg =
     \<lparr> user_message = msg, parsed_intent = None, flight_options = [], accommodation_options = [],
       itineraries = [], agent_messages = [], current_step = ''start'', errors = [] \<rparr>"



section \<open>Provider calls\<close>

text \<open>
  The providers are external. A provider is modelled by its outcome as a function of the
  calls made so far in the run (so a provider may answer the same question differently
  the second time), and every function that calls a provider returns the extended call log
  beside its result.
\<close>

datatype provider_call =
    SerpAPI_flights
  | Amadeus_route string string
  | Hotelbeds_hotels
  | Amadeus_hotels
  | Booking_com_hotels
  | Mock_hotels

type_synonym call_log = "provider_call list"

type_synonym route_api = "call_log \<Rightarrow> string \<Rightarrow> string \<Rightarrow> py_exn + FlightOption list"

section \<open>Flight search with fallback\<close>

text \<open>\<open>AmadeusFlightService._search_route\<close>: one call of the flight offers API for a route;
  every exception is caught and gives the empty list.\<close>

definition search_route :: "route_api \<Rightarrow> string \<Rightarrow> string \<Rightarrow> call_log \<Rightarrow> FlightOption list \<times> call_log" where
  "search_route api origin_code dest_code calls =
     ((case api calls origin_code dest_code of Inl e \<Rightarrow> [] | Inr found \<Rightarrow> found),
      calls @ [Amadeus_route origin_code dest_code])"

text \<open>The loop \<open>for alt_dest in dest_alternatives\<close> with its early \<open>return\<close>: \<open>Some\<close> is the
  returned list, \<open>None\<close> means the loop ran to its end.\<close>

fun try_destinations ::
  "route_api \<Rightarrow> string \<Rightarrow> string list \<Rightarrow> call_log \<Rightarrow> FlightOption list option \<times> call_log" where
  "try_destinations api origin_code [] calls = (None, calls)"
| "try_destinations api origin_code (alt_dest # rest) calls =
     (case search_route api origin_code alt_dest calls of
        (found, calls') \<Rightarrow>
          if found \<noteq> [] then (Some found, calls')
          else try_destinations api origin_code rest calls')"

text \<open>The loop \<open>for alt_origin in origin_alternatives\<close>.\<close>

fun try_origins ::
  "route_api \<Rightarrow> string \<Rightarrow> string list \<Rightarrow> call_log \<Rightarrow> FlightOption list option \<times> call_log" where
  "try_origins api dest_code [] calls = (None, calls)"
| "try_origins api dest_code (alt_origin # rest) calls =
     (case search_route api alt_origin dest_code calls of
        (found, calls') \<Rightarrow>
          if found \<noteq> [] then (Some found, calls')
          else try_origins api dest_code rest calls')"

text \<open>The nested loops over \<open>origin_alternatives[:2]\<close> and \<open>dest_alternatives[:2]\<close>; the
  inner loop is the destination loop for the alternative origin.\<close>

fun try_combinations ::
  "route_api \<Rightarrow> string list \<Rightarrow> string list \<Rightarrow> call_log \<Rightarrow> FlightOption list option \<times> call_log" where
  "try_combinations api [] dests calls = (None, calls)"
| "try_combinations api (alt_origin # rest) dests calls =
     (case try_destinations api alt_origin dests calls of
        (Some found, calls') \<Rightarrow> (Some found, calls')
      | (None, calls') \<Rightarrow> try_combinations api rest dests calls')"

text \<open>
  \<open>AmadeusFlightService.search_flights\<close>. The tables behind \<open>_get_iata_code\<close> and
  \<open>_get_alternative_airports\<close> are parameters (\<open>iata\<close>, \<open>alternatives\<close>).
\<close>

definition amadeus_search_flights ::
  "route_api \<Rightarrow> (string \<Rightarrow> string) \<Rightarrow> (string \<Rightarrow> string \<Rightarrow> string list) \<Rightarrow> TravelIntent \<Rightarrow> call_log
     \<Rightarrow> FlightOption list \<times> call_log" where
  "amadeus_search_flights api iata alternatives intent calls =
     (if \<not> truthy_str (origin intent) \<or> \<not> truthy_str (destination intent) then ([], calls)
      else if departure_date intent = None \<or> return_date intent = None then ([], calls)
      else
        (case (origin intent, destination intent) of
           (Some org, Some dst) \<Rightarrow>
             (let origin_code = iata org;
                  dest_code = iata dst;
                  origin_alternatives = alternatives org origin_code;
                  dest_alternatives = alternatives dst dest_code
              in case search_route api origin_code dest_code calls of
                   (found, calls0) \<Rightarrow>
                     if found \<noteq> [] then (found, calls0)
                     else
                       (case try_destinations api origin_code dest_alternatives calls0 of
                          (Some r, calls1) \<Rightarrow> (r, calls1)
                        | (None, calls1) \<Rightarrow>
                           (case try_origins api dest_code origin_alternatives calls1 of
                              (Some r, calls2) \<Rightarrow> (r, calls2)
                            | (None, calls2) \<Rightarrow>
                               (case try_combinations api (take 2 origin_alternatives) (take 2 dest_alternatives) calls2 of
                                  (Some r, calls3) \<Rightarrow> (r, calls3)
                                | (None, calls3) \<Rightarrow> ([], calls3)))))
         | _ \<Rightarrow> ([], calls)))"

text \<open>
  \<open>SearchOrchestratorAgent._search_flights_async\<close>. \<open>serpapi\<close> is the outcome of
  \<open>SerpAPIFlightService.search_flights\<close>. The second \<open>try\<close> guards a call that, as modelled
  above, returns a list in every case.
\<close>

definition search_flights_async ::
  "(call_log \<Rightarrow> py_exn + FlightOption list) \<Rightarrow> route_api \<Rightarrow> (string \<Rightarrow> string)
     \<Rightarrow> (string \<Rightarrow> string \<Rightarrow> string list) \<Rightarrow> TravelIntent \<Rightarrow> call_log \<Rightarrow> FlightOption list \<times> call_log" where
  "search_flights_async serpapi api iata alternatives intent calls =
     (let calls1 = calls @ [SerpAPI_flights]
      in case serpapi calls of
           Inr fls \<Rightarrow>
             if fls \<noteq> [] then (fls, calls1)
             else amadeus_search_flights api iata alternatives intent calls1
         | Inl e \<Rightarrow> amadeus_search_flights api iata alternatives intent calls1)"

text \<open>
  The fallback chain in the words of the specification: the routes of provider B in the
  order primary route, alternate destinations, alternate origins, cross product of at
  most two alternate origins with at most two alternate destinations; and the rule that
  the steps are tried in order until one has a result.
\<close>

definition amadeus_plan :: "string \<Rightarrow> string \<Rightarrow> string list \<Rightarrow> string list \<Rightarrow> (string \<times> string) list" where
  "amadeus_plan origin_code dest_code origin_alts dest_alts =
     [(origin_code, dest_code)]
     @ map (\<lambda>d. (origin_code, d)) dest_alts
     @ map (\<lambda>oc. (oc, dest_code)) origin_alts
     @ concat (map (\<lambda>oc. map (\<lambda>d. (oc, d)) (take 2 dest_alts)) (take 2 origin_alts))"

fun first_nonempty :: "route_api \<Rightarrow> (string \<times> string) list \<Rightarrow> call_log \<Rightarrow> FlightOption list \<times> call_log" where
  "first_nonempty api [] calls = ([], calls)"
| "first_nonempty api ((oc, d) # rest) calls =
     (case api calls oc d of
        Inr (f # fs) \<Rightarrow> (f # fs, calls @ [Amadeus_route oc d])
      | _ \<Rightarrow> first_nonempty api rest (calls @ [Amadeus_route oc d]))"

section \<open>Lodging search with fallback (HotelSearchService.search_hotels)\<close>






section \<open>Vocabulary of the properties\<close>

text \<open>Multiplying a flight's price by a constant, and the same on an optimizer outcome.\<close>

definition scale_price :: "real \<Rightarrow> FlightOption \<Rightarrow> FlightOption" where
  "scale_price c f = f\<lparr>total_price := c * total_price f\<rparr>"

definition scaled :: "real \<Rightarrow> py_exn + FlightOption list \<Rightarrow> py_exn + FlightOption list" where
  "scaled c r = (case r of Inl e \<Rightarrow> Inl e | Inr out \<Rightarrow> Inr (map (scale_price c) out))"

text \<open>The flight score in the words of the specification, with the stops term clamped at 0.\<close>

definition spec_flight_score :: "FlightOption list \<Rightarrow> FlightOption \<Rightarrow> real" where
  "spec_flight_score pool flight =
     0.5 * (1 - total_price flight / Max (set (map total_price pool)))
     + 0.3 * (1 - real_of_int (total_duration_minutes flight) / real_of_int (Max (set (map total_duration_minutes pool))))
     + 0.2 * max 0 (1 - real_of_int (number_of_stops flight) / 3)"

text \<open>The balanced flight metric where it is defined (the divisor is 0 for three stops).\<close>

definition balanced_metric :: "FlightOption \<Rightarrow> real" where
  "balanced_metric f = total_price f / real_of_int (24 - number_of_stops f * 8)"

text \<open>
  The cost breakdown of an itinerary for a request and a food rate per person and day.
  The duration is \<open>duration_days\<close>, or 7 when that is absent or 0; the travelers counted are
  the adults and the children.
\<close>

definition costs_add_up :: "Itinerary \<Rightarrow> TravelIntent \<Rightarrow> int \<Rightarrow> bool" where
  "costs_add_up it intent rate \<longleftrightarrow>
     flight_cost it = total_price (flights it)
     \<and> accommodation_cost it = sum_list (map htotal_price (accommodations it))
     \<and> activities_cost it = 0
     \<and> estimated_food_cost it = real_of_int (or_int (duration_days intent) 7 * rate * (num_adults intent + num_children intent))
     \<and> total_cost it = flight_cost it + accommodation_cost it + activities_cost it + estimated_food_cost it"

text \<open>The food rate that goes with a style tag.\<close>

definition food_rate :: "string \<Rightarrow> int" where
  "food_rate tag = (if tag = ''Budget'' then 40 else if tag = ''Balanced Family'' then 60 else 100)"

text \<open>
  The calls that a list of routes stands for, and what step \<open>k\<close> of a plan yields when the
  steps before it have been made (a failed call yields nothing).
\<close>

definition route_calls :: "(string \<times> string) list \<Rightarrow> call_log" where
  "route_calls plan = map (\<lambda>(oc, d). Amadeus_route oc d) plan"

definition step_yields :: "route_api \<Rightarrow> call_log \<Rightarrow> (string \<times> string) list \<Rightarrow> nat \<Rightarrow> FlightOption list" where
  "step_yields api calls plan k =
     (case api (calls @ route_calls (take k plan)) (fst (plan ! k)) (snd (plan ! k)) of
        Inl e \<Rightarrow> []
      | Inr r \<Rightarrow> r)"

text \<open>
  A flight request that provider B accepts, and the plan of routes for a request: the
  routes of \<open>amadeus_plan\<close> for the request's cities, and no route when the request lacks
  origin, destination or a date.
\<close>

definition request_complete :: "TravelIntent \<Rightarrow> bool" where
  "request_complete intent \<longleftrightarrow>
     truthy_str (origin intent) \<and> truthy_str (destination intent)
     \<and> departure_date intent \<noteq> None \<and> return_date intent \<noteq> None"

definition fallback_plan ::
  "(string \<Rightarrow> string) \<Rightarrow> (string \<Rightarrow> string \<Rightarrow> string list) \<Rightarrow> TravelIntent \<Rightarrow> (string \<times> string) list" where
  "fallback_plan iata alternatives intent =
     (case (origin intent, destination intent) of
        (Some org, Some dst) \<Rightarrow>
          if request_complete intent
          then amadeus_plan (iata org) (iata dst) (alternatives org (iata org)) (alternatives dst (iata dst))
          else []
      | _ \<Rightarrow> [])"




subsection \<open>Sample data\<close>

definition flight_a :: FlightOption where
  "flight_a = \<lparr> total_price = 300, currency = ''EUR'', total_duration_minutes = 600, number_of_stops = 1, source = ''serpapi'' \<rparr>"

definition flight_b :: FlightOption where
  "flight_b = \<lparr> total_price = 2500, currency = ''EUR'', total_duration_minutes = 480, number_of_stops = 0, source = ''serpapi'' \<rparr>"

definition flight_c :: FlightOption where
  "flight_c = \<lparr> total_price = 400, currency = ''EUR'', total_duration_minutes = 700, number_of_stops = 2, source = ''serpapi'' \<rparr>"

definition flight_three_stops :: FlightOption where
  "flight_three_stops = \<lparr> total_price = 100, currency = ''EUR'', total_duration_minutes = 600, number_of_stops = 3, source = ''amadeus'' \<rparr>"

definition flight_six_stops :: FlightOption where
  "flight_six_stops = \<lparr> total_price = 99, currency = ''EUR'', total_duration_minutes = 600, number_of_stops = 6, source = ''amadeus'' \<rparr>"

definition sample_hotel :: "string \<Rightarrow> string \<Rightarrow> real \<Rightarrow> AccommodationOption" where
  "sample_hotel n t p =
     \<lparr> name = n, htype = t, price_per_night = p, htotal_price = 7 * p, rating = Some 4,
       amenities = [''WiFi''], distance_to_center_km = Some 1, hsource = ''amadeus'' \<rparr>"

definition hotel_80 :: AccommodationOption where "hotel_80 = sample_hotel ''Inn'' ''hotel'' 80"

definition hotel_220 :: AccommodationOption where "hotel_220 = sample_hotel ''Grand'' ''hotel'' 220"

definition sample_intent :: TravelIntent where
  "sample_intent =
     \<lparr> origin = Some ''Copenhagen'', destination = Some ''Rome'', departure_date = Some 739000,
       return_date = Some 739010, duration_days = Some 10, num_adults = 2, num_children = 0,
       num_infants = 0, total_budget = Some 5000, travel_style = BALANCED \<rparr>"

definition sample_state :: "FlightOption list \<Rightarrow> AccommodationOption list \<Rightarrow> TravelIntent \<Rightarrow> AgentState" where
  "sample_state fls hs intent =
     \<lparr> user_message = ''Rome for 10 days'', parsed_intent = Some intent, flight_options = fls,
       accommodation_options = hs, itineraries = [], agent_messages = [], current_step = ''taste_profiled'',
       errors = [] \<rparr>"

definition intent_no_duration :: TravelIntent where
  "intent_no_duration =
     sample_intent\<lparr>departure_date := None, return_date := None, duration_days := None, num_infants := 1\<rparr>"

definition intent_with_infant :: TravelIntent where
  "intent_with_infant = sample_intent\<lparr>num_infants := 1\<rparr>"



definition sample_iata :: "string \<Rightarrow> string" where
  "sample_iata city = (if city = ''Rome'' then ''ROM'' else if city = ''Copenhagen'' then ''CPH'' else take 3 city)"

definition sample_alternatives :: "string \<Rightarrow> string \<Rightarrow> string list" where
  "sample_alternatives city code = (if city = ''Rome'' then [''FCO'', ''CIA''] else [])"

definition ciampino_only :: route_api where
  "ciampino_only calls oc d = (if d = ''CIA'' then Inr [flight_a] else Inl (ProviderError ''404''))"



section \<open>Properties of the flight optimizer\<close>

subsection \<open>Helper lemmas\<close>

lemma py_max_Max:
  assumes "xs \<noteq> []"
  shows "py_max xs = Inr (Max (set xs))"
proof (cases xs)
  case Nil
  with assms show ?thesis by simp
next
  case (Cons a as)
  then show ?thesis using Max.set_eq_fold[of a as] by simp
qed


lemma set_sort_desc [simp]: "set (sort_desc k xs) = set xs"
  by (simp add: sort_desc_def)

lemma length_sort_desc [simp]: "length (sort_desc k xs) = length xs"
  by (simp add: sort_desc_def)

lemma mset_sort_desc [simp]: "mset (sort_desc k xs) = mset xs"
  by (simp add: sort_desc_def)


lemma rank_flights_length:
  assumes "rank_flights xs = Inr out"
  shows "length out \<le> 10"
  using assms by (auto simp: rank_flights_def split: sum.splits)




lemma insort_key_map_commute:
  "insort_key k (g x) (map g xs) = map g (insort_key (\<lambda>y. k (g y)) x xs)"
  by (induction xs) auto

lemma sort_key_map_commute: "sort_key k (map g xs) = map g (sort_key (\<lambda>y. k (g y)) xs)"
  by (induction xs) (auto simp: insort_key_map_commute)







lemmas eval_defs = score_flight_def rank_flights_def float_div_def int_div_def sort_desc_def
  budget_filter_flights_def scale_price_def scaled_def

subsection \<open>Budget filter\<close>



subsection \<open>Flight score\<close>

text \<open>Where no flight has more than three stops the source's score is the specified one.\<close>

lemma score_flight_matches_spec:
  assumes "flight \<in> set fls"
    and "Max (set (map total_price fls)) \<noteq> 0" and "Max (set (map total_duration_minutes fls)) \<noteq> 0"
    and "number_of_stops flight \<le> 3"
  shows "score_flight fls flight = Inr (spec_flight_score fls flight)"
proof -
  have ne: "fls \<noteq> []" using assms(1) by auto
  have p: "py_max (map total_price fls) = Inr (Max (set (map total_price fls)))"
    and d: "py_max (map total_duration_minutes fls) = Inr (Max (set (map total_duration_minutes fls)))"
    using ne by (simp_all add: py_max_Max)
  have "max 0 (1 - real_of_int (number_of_stops flight) / 3) = 1 - real_of_int (number_of_stops flight) / 3"
    using assms(4) by simp
  then show ?thesis
    unfolding score_flight_def p d spec_flight_score_def
    using assms(2) assms(3) by (simp add: float_div_def int_div_def Let_def)
qed

text \<open>
  C6. The source computes the stops term as \<open>1 - stops / 3\<close> without clamping it at 0,
  although its comment says that three or more stops score 0. For a pool of a six-stop
  flight at 99 and a three-stop flight at 100, both of 600 minutes, the six-stop flight
  scores -39/200 where the specified formula gives 1/200, and the optimizer ranks the
  three-stop flight first where the specified scores rank it second.
\<close>

theorem score_flight_stops_unclamped:
  "score_flight [flight_six_stops, flight_three_stops] flight_six_stops = Inr (- 39 / 200)
   \<and> spec_flight_score [flight_six_stops, flight_three_stops] flight_six_stops = 1 / 200
   \<and> score_flight [flight_six_stops, flight_three_stops] flight_three_stops = Inr 0
   \<and> spec_flight_score [flight_six_stops, flight_three_stops] flight_three_stops = 0
   \<and> rank_flights [flight_six_stops, flight_three_stops] = Inr [flight_three_stops, flight_six_stops]"
  by (simp add: eval_defs spec_flight_score_def flight_six_stops_def flight_three_stops_def)

subsection \<open>Scale invariance\<close>



section \<open>Properties of the lodging selection\<close>

lemma length_filter_take_le:
  "length (filter P (take n xs)) \<le> length (filter P xs)"
proof -
  have "length (filter P xs) = length (filter P (take n xs)) + length (filter P (drop n xs))"
    by (metis append_take_drop_id filter_append length_append)
  then show ?thesis by simp
qed

lemma filter_take_filter_disjoint:
  assumes "\<And>x. Q x \<Longrightarrow> \<not> P x"
  shows "filter P (take n (filter Q xs)) = []"
  using assms by (auto simp: filter_empty_conv dest: in_set_takeD)

lemma low_mid [simp]:
  "filter (\<lambda>h. price_per_night h < 100)
     (take n (filter (\<lambda>h. \<not> price_per_night h < 100 \<and> price_per_night h < 200) xs)) = []"
  by (rule filter_take_filter_disjoint) simp

lemma low_high [simp]:
  "filter (\<lambda>h. price_per_night h < 100)
     (take n (filter (\<lambda>h. \<not> price_per_night h < 100 \<and> \<not> price_per_night h < 200) xs)) = []"
  by (rule filter_take_filter_disjoint) simp

lemma mid_low [simp]:
  "filter (\<lambda>h. \<not> price_per_night h < 100 \<and> price_per_night h < 200)
     (take n (filter (\<lambda>h. price_per_night h < 100) xs)) = []"
  by (rule filter_take_filter_disjoint) simp

lemma mid_high [simp]:
  "filter (\<lambda>h. \<not> price_per_night h < 100 \<and> price_per_night h < 200)
     (take n (filter (\<lambda>h. \<not> price_per_night h < 100 \<and> \<not> price_per_night h < 200) xs)) = []"
  by (rule filter_take_filter_disjoint) simp

lemma high_low [simp]:
  "filter (\<lambda>h. \<not> price_per_night h < 100 \<and> \<not> price_per_night h < 200)
     (take n (filter (\<lambda>h. price_per_night h < 100) xs)) = []"
  by (rule filter_take_filter_disjoint) simp

lemma high_mid [simp]:
  "filter (\<lambda>h. \<not> price_per_night h < 100 \<and> \<not> price_per_night h < 200)
     (take n (filter (\<lambda>h. \<not> price_per_night h < 100 \<and> price_per_night h < 200) xs)) = []"
  by (rule filter_take_filter_disjoint) simp

lemma filter_take_filter_same:
  "filter P (take n (filter P xs)) = take n (filter P xs)"
  by (auto simp: filter_id_conv dest: in_set_takeD)

lemma select_by_price_range_low:
  "length (filter (\<lambda>h. price_per_night h < 100) (select_by_price_range ranked)) \<le> 4"
proof -
  let ?P = "\<lambda>h::AccommodationOption. price_per_night h < 100"
  let ?sel = "take 4 (filter ?P ranked)
              @ take 4 (filter (\<lambda>h. \<not> price_per_night h < 100 \<and> price_per_night h < 200) ranked)
              @ take 2 (filter (\<lambda>h. \<not> price_per_night h < 100 \<and> \<not> price_per_night h < 200) ranked)"
  have "filter ?P ?sel = take 4 (filter ?P ranked)"
    by (simp add: filter_take_filter_same)
  then have "length (filter ?P ?sel) \<le> 4" by simp
  moreover have "length (filter ?P (take 15 ?sel)) \<le> length (filter ?P ?sel)"
    by (rule length_filter_take_le)
  ultimately show ?thesis by (simp add: select_by_price_range_def Let_def)
qed

lemma select_by_price_range_mid:
  "length (filter (\<lambda>h. 100 \<le> price_per_night h \<and> price_per_night h < 200) (select_by_price_range ranked)) \<le> 4"
proof -
  let ?P = "\<lambda>h::AccommodationOption. 100 \<le> price_per_night h \<and> price_per_night h < 200"
  let ?M = "\<lambda>h::AccommodationOption. \<not> price_per_night h < 100 \<and> price_per_night h < 200"
  let ?sel = "take 4 (filter (\<lambda>h. price_per_night h < 100) ranked)
              @ take 4 (filter ?M ranked)
              @ take 2 (filter (\<lambda>h. \<not> price_per_night h < 100 \<and> \<not> price_per_night h < 200) ranked)"
  have PM: "?P = ?M" by (auto simp: not_less)
  have "filter ?P ?sel = take 4 (filter ?M ranked)"
    unfolding PM by (simp add: filter_take_filter_same)
  then have "length (filter ?P ?sel) \<le> 4" by simp
  moreover have "length (filter ?P (take 15 ?sel)) \<le> length (filter ?P ?sel)"
    by (rule length_filter_take_le)
  ultimately show ?thesis by (simp add: select_by_price_range_def Let_def)
qed

lemma select_by_price_range_high:
  "length (filter (\<lambda>h. 200 \<le> price_per_night h) (select_by_price_range ranked)) \<le> 2"
proof -
  let ?P = "\<lambda>h::AccommodationOption. 200 \<le> price_per_night h"
  let ?H = "\<lambda>h::AccommodationOption. \<not> price_per_night h < 100 \<and> \<not> price_per_night h < 200"
  let ?sel = "take 4 (filter (\<lambda>h. price_per_night h < 100) ranked)
              @ take 4 (filter (\<lambda>h. \<not> price_per_night h < 100 \<and> price_per_night h < 200) ranked)
              @ take 2 (filter ?H ranked)"
  have PH: "?P = ?H" by (auto simp: not_less)
  have "filter ?P ?sel = take 2 (filter ?H ranked)"
    unfolding PH by (simp add: filter_take_filter_same)
  then have "length (filter ?P ?sel) \<le> 2" by simp
  moreover have "length (filter ?P (take 15 ?sel)) \<le> length (filter ?P ?sel)"
    by (rule length_filter_take_le)
  ultimately show ?thesis by (simp add: select_by_price_range_def Let_def)
qed

lemma select_by_price_range_length: "length (select_by_price_range ranked) \<le> 10"
  by (simp add: select_by_price_range_def Let_def)

lemma comprehend_all_Inr:
  "(\<And>x. x \<in> set xs \<Longrightarrow> \<exists>y. g x = Inr y) \<Longrightarrow> \<exists>ys. comprehend g xs = Inr ys"
proof (induction xs)
  case Nil
  then show ?case by simp
next
  case (Cons x xs)
  from Cons.prems[of x] obtain y where y: "g x = Inr y" by auto
  from Cons.IH Cons.prems obtain ys where ys: "comprehend g xs = Inr ys" by auto
  show ?case by (simp add: y ys)
qed

lemma score_hotel_Inr:
  assumes "hotels \<noteq> []"
  shows "\<exists>s. score_hotel hotels style hotel = Inr s"
proof -
  obtain a as where "map htotal_price hotels = a # as"
    using assms by (cases hotels) auto
  then show ?thesis by (simp add: score_hotel_def)
qed

lemma scored_hotels_Inr:
  "\<exists>hotels_with_scores.
     comprehend (\<lambda>h. case score_hotel kept style h of Inl e \<Rightarrow> Inl e | Inr s \<Rightarrow> Inr (h, s)) kept
       = Inr hotels_with_scores"
proof (rule comprehend_all_Inr)
  fix h assume "h \<in> set kept"
  then have "kept \<noteq> []" by auto
  from score_hotel_Inr[OF this, of style h] obtain s where "score_hotel kept style h = Inr s" by blast
  then show "\<exists>y. (case score_hotel kept style h of Inl e \<Rightarrow> Inl e | Inr s \<Rightarrow> Inr (h, s)) = Inr y"
    by simp
qed

lemma optimize_hotels_cases:
  "\<exists>ranked. optimize_hotels hs b st = Inr (select_by_price_range ranked)"
proof (cases hs)
  case Nil
  have "select_by_price_range [] = []" by (simp add: select_by_price_range_def)
  with Nil show ?thesis by (metis optimize_hotels.simps(1))
next
  case (Cons a as)
  let ?kept = "if truthy_float b
               then (case b of Some x \<Rightarrow> filter (\<lambda>h. htotal_price h \<le> x * 0.4) (a # as) | None \<Rightarrow> a # as)
               else a # as"
  from scored_hotels_Inr[of ?kept st] obtain hws where
    "comprehend (\<lambda>h. case score_hotel ?kept st h of Inl e \<Rightarrow> Inl e | Inr s \<Rightarrow> Inr (h, s)) ?kept = Inr hws"
    by blast
  then have "optimize_hotels (a # as) b st = Inr (select_by_price_range (map fst (sort_desc snd hws)))"
    by (simp add: Let_def)
  with Cons show ?thesis by blast
qed

lemma diverse_loop_length:
  assumes "diverse_loop m xs (sel, ts, pb) = (sel', ts', pb')"
    and "int (length sel) \<le> M" and "m \<le> M"
  shows "int (length sel') \<le> M"
  using assms
proof (induction xs arbitrary: sel ts pb)
  case Nil
  then show ?case by simp
next
  case (Cons x xs)
  obtain hotel score where x: "x = (hotel, score)" by (cases x)
  show ?case
  proof (cases "int (length sel) \<ge> m")
    case True
    with Cons.prems x show ?thesis by simp
  next
    case False
    show ?thesis
    proof (cases "pb (price_bucket hotel) < 4 \<and> count_list ts (htype hotel) < 3")
      case True
      with False Cons.prems x have
        "diverse_loop m xs (sel @ [hotel], ts @ [htype hotel], pb(price_bucket hotel := pb (price_bucket hotel) + 1)) = (sel', ts', pb')"
        by (simp add: Let_def)
      moreover have "int (length (sel @ [hotel])) \<le> M" using False Cons.prems(3) by simp
      ultimately show ?thesis using Cons.IH Cons.prems(3) by blast
    next
      case no: False
      with False Cons.prems x have "diverse_loop m xs (sel, ts, pb) = (sel', ts', pb')"
        by (auto simp: Let_def)
      then show ?thesis using Cons.IH Cons.prems by blast
    qed
  qed
qed

lemma fill_loop_length:
  assumes "0 < r"
  shows "int (length (fill_loop xs sel r)) \<le> int (length sel) + r"
  using assms
proof (induction xs arbitrary: sel r)
  case Nil
  then show ?case by simp
next
  case (Cons x xs)
  obtain hotel score where x: "x = (hotel, score)" by (cases x)
  show ?case
  proof (cases "hotel \<notin> set sel")
    case True
    show ?thesis
    proof (cases "r - 1 = 0")
      case True
      with \<open>hotel \<notin> set sel\<close> x show ?thesis by simp
    next
      case False
      with Cons.prems have "0 < r - 1" by simp
      from Cons.IH[OF this, of "sel @ [hotel]"] True False x show ?thesis by simp
    qed
  next
    case False
    with Cons.IH[OF Cons.prems, of sel] x show ?thesis by simp
  qed
qed

lemma select_diverse_hotels_length:
  "int (length (select_diverse_hotels scored m)) \<le> max 0 m"
proof -
  obtain sel ts pb where d: "diverse_loop m scored ([], [], (\<lambda>b. 0)) = (sel, ts, pb)"
    by (metis prod_cases3)
  have l: "int (length sel) \<le> max 0 m"
    by (rule diverse_loop_length[OF d]) simp_all
  show ?thesis
  proof (cases "m - int (length sel) > 0")
    case True
    from fill_loop_length[OF this, of scored sel] True d show ?thesis
      by (simp add: select_diverse_hotels_def)
  next
    case False
    with l d show ?thesis by (simp add: select_diverse_hotels_def)
  qed
qed

lemmas hotel_eval_defs = score_hotel_def select_by_price_range_def sort_desc_def sample_hotel_def
  select_diverse_hotels_def price_bucket_def

text \<open>
  C8. For every lodging list, budget and style, the lodging optimizer returns a list, and
  the hotels it returns hold at most 4 with a nightly price below 100, at most 4 with a nightly price from 100 to
  below 200 and at most 2 with a nightly price of 200 or more, and at most 15 in total;
  and for every scored list the diverse selection of the preference re-ranker, called with
  its limit of 12, returns at most 12 hotels.
\<close>

theorem lodging_diversity_caps:
  "(\<exists>selected. optimize_hotels hotels budget style = Inr selected
      \<and> length (filter (\<lambda>h. price_per_night h < 100) selected) \<le> 4
      \<and> length (filter (\<lambda>h. 100 \<le> price_per_night h \<and> price_per_night h < 200) selected) \<le> 4
      \<and> length (filter (\<lambda>h. 200 \<le> price_per_night h) selected) \<le> 2
      \<and> length selected \<le> 15)
   \<and> length (select_diverse_hotels scored_hotels 12) \<le> 12"
proof
  obtain ranked where r: "optimize_hotels hotels budget style = Inr (select_by_price_range ranked)"
    using optimize_hotels_cases by blast
  have "length (select_by_price_range ranked) \<le> 15"
    using select_by_price_range_length[of ranked] by simp
  with r select_by_price_range_low[of ranked] select_by_price_range_mid[of ranked]
    select_by_price_range_high[of ranked]
  show "\<exists>selected. optimize_hotels hotels budget style = Inr selected
      \<and> length (filter (\<lambda>h. price_per_night h < 100) selected) \<le> 4
      \<and> length (filter (\<lambda>h. 100 \<le> price_per_night h \<and> price_per_night h < 200) selected) \<le> 4
      \<and> length (filter (\<lambda>h. 200 \<le> price_per_night h) selected) \<le> 2
      \<and> length selected \<le> 15"
    by blast
  show "length (select_diverse_hotels scored_hotels 12) \<le> 12"
    using select_diverse_hotels_length[of scored_hotels 12] by simp
qed

text \<open>
  The theorem on nine hotels, five of them below 100 and three at 200 or more: the optimizer
  returns four, one and two of the three ranges; the diverse selection of fifteen scored
  hotels returns twelve.
\<close>

theorem lodging_diversity_caps_witness:
  "map_sum id (map price_per_night)
       (optimize_hotels (map (sample_hotel ''H'' ''hotel'') [50, 60, 70, 80, 90, 150, 250, 260, 270]) None ''balanced'')
     = Inr [50, 60, 70, 80, 150, 250, 260]
   \<and> length (select_diverse_hotels (map (\<lambda>p. (sample_hotel ''H'' ''hotel'' p, 0.5)) [50, 60, 70, 80, 90, 150, 250, 260, 270, 10, 20, 30, 40, 41, 42]) 12) = 12"
  using lodging_diversity_caps[of "map (sample_hotel ''H'' ''hotel'') [50, 60, 70, 80, 90, 150, 250, 260, 270]" None "''balanced''"
      "map (\<lambda>p. (sample_hotel ''H'' ''hotel'' p, 0.5)) [50, 60, 70, 80, 90, 150, 250, 260, 270, 10, 20, 30, 40, 41, 42]"]
  by (simp add: hotel_eval_defs)

section \<open>Properties of the itinerary synthesizer\<close>

subsection \<open>Sorting\<close>

lemma sort_key_decorated: "map fst (sort_key snd (zip xs (map k xs))) = sort_key k xs"
proof -
  have "zip xs (map k xs) = map (\<lambda>x. (x, k x)) xs"
    by (induction xs) auto
  then show ?thesis by (simp add: sort_key_map_commute comp_def)
qed

lemma comprehend_total:
  "(\<And>x. x \<in> set xs \<Longrightarrow> g x = Inr (k x)) \<Longrightarrow> comprehend g xs = Inr (map k xs)"
  by (induction xs) auto

lemma comprehend_Inr_all:
  "comprehend g xs = Inr ys \<Longrightarrow> x \<in> set xs \<Longrightarrow> \<exists>y. g x = Inr y"
  by (induction xs arbitrary: ys) (auto split: sum.splits)

lemma balanced_key_Inr: "(\<exists>y. balanced_key f = Inr y) \<longleftrightarrow> number_of_stops f \<noteq> 3"
  by (auto simp: balanced_key_def float_div_def)

lemma balanced_key_metric: "number_of_stops f \<noteq> 3 \<Longrightarrow> balanced_key f = Inr (balanced_metric f)"
  by (auto simp: balanced_key_def float_div_def balanced_metric_def)

lemma sorted_by_balanced_ok:
  assumes "\<forall>f \<in> set fls. number_of_stops f \<noteq> 3"
  shows "sorted_by balanced_key fls = Inr (sort_key balanced_metric fls)"
proof -
  have "comprehend balanced_key fls = Inr (map balanced_metric fls)"
    by (rule comprehend_total) (use assms in \<open>simp add: balanced_key_metric\<close>)
  then show ?thesis by (simp add: sorted_by_def sort_key_decorated)
qed

lemma sorted_by_balanced_Inr:
  assumes "sorted_by balanced_key fls = Inr ranked"
  shows "(\<forall>f \<in> set fls. number_of_stops f \<noteq> 3) \<and> ranked = sort_key balanced_metric fls"
proof -
  from assms obtain ks where ks: "comprehend balanced_key fls = Inr ks"
    by (auto simp: sorted_by_def split: sum.splits)
  have all: "\<forall>f \<in> set fls. number_of_stops f \<noteq> 3"
    using comprehend_Inr_all[OF ks] balanced_key_Inr by blast
  with assms sorted_by_balanced_ok show ?thesis by simp
qed

lemma sorted_by_balanced_Inl:
  assumes "sorted_by balanced_key fls = Inl e"
  shows "\<exists>f \<in> set fls. number_of_stops f = 3"
  using assms sorted_by_balanced_ok[of fls] by auto





lemma sort_key_eq_Nil [simp]: "sort_key k xs = [] \<longleftrightarrow> xs = []"
  by (metis length_0_conv length_sort)

subsection \<open>The balanced itinerary\<close>

lemma create_balanced_itinerary_SomeD:
  assumes "create_balanced_itinerary state = Some it"
  shows "\<exists>intent. parsed_intent state = Some intent
          \<and> flight_options state \<noteq> [] \<and> accommodation_options state \<noteq> []
          \<and> (\<forall>f \<in> set (flight_options state). number_of_stops f \<noteq> 3)
          \<and> it = new_Itinerary (''Balanced Option - '' @ show_opt_str (destination intent)) ''Balanced Family''
                   (sort_key balanced_metric (flight_options state) ! (length (flight_options state) div 2))
                   [sort_key price_per_night (accommodation_options state)
                      ! (if length (accommodation_options state) = 2 then 0 else length (accommodation_options state) div 2)]
                   (total_price (sort_key balanced_metric (flight_options state) ! (length (flight_options state) div 2)))
                   (htotal_price (sort_key price_per_night (accommodation_options state)
                      ! (if length (accommodation_options state) = 2 then 0 else length (accommodation_options state) div 2)))
                   0
                   (real_of_int (or_int (duration_days intent) 7 * 60 * (num_adults intent + num_children intent)))
                   (total_price (sort_key balanced_metric (flight_options state) ! (length (flight_options state) div 2))
                    + htotal_price (sort_key price_per_night (accommodation_options state)
                      ! (if length (accommodation_options state) = 2 then 0 else length (accommodation_options state) div 2))
                    + 0
                    + real_of_int (or_int (duration_days intent) 7 * 60 * (num_adults intent + num_children intent)))"
proof -
  from assms obtain ranked where r: "sorted_by balanced_key (flight_options state) = Inr ranked"
    by (auto simp: create_balanced_itinerary_def split: sum.splits)
  from sorted_by_balanced_Inr[OF r]
  have ns: "\<forall>f \<in> set (flight_options state). number_of_stops f \<noteq> 3"
    and rk: "ranked = sort_key balanced_metric (flight_options state)" by auto
  have len: "length ranked = length (flight_options state)" using rk by simp
  from assms r have ne: "ranked \<noteq> []"
    by (auto simp: create_balanced_itinerary_def split: list.splits)
  from assms r ne have hne: "sort_key price_per_night (accommodation_options state) \<noteq> []"
    by (auto simp: create_balanced_itinerary_def Let_def split: list.splits if_splits)
  from assms r ne hne obtain intent where i: "parsed_intent state = Some intent"
    by (auto simp: create_balanced_itinerary_def Let_def split: list.splits if_splits option.splits)
  from assms r ne hne i have
    "it = new_Itinerary (''Balanced Option - '' @ show_opt_str (destination intent)) ''Balanced Family''
            (ranked ! (length ranked div 2))
            [sort_key price_per_night (accommodation_options state)
               ! (if length (accommodation_options state) = 2 then 0 else length (accommodation_options state) div 2)]
            (total_price (ranked ! (length ranked div 2)))
            (htotal_price (sort_key price_per_night (accommodation_options state)
               ! (if length (accommodation_options state) = 2 then 0 else length (accommodation_options state) div 2)))
            0
            (real_of_int (or_int (duration_days intent) 7 * 60 * (num_adults intent + num_children intent)))
            (total_price (ranked ! (length ranked div 2))
             + htotal_price (sort_key price_per_night (accommodation_options state)
               ! (if length (accommodation_options state) = 2 then 0 else length (accommodation_options state) div 2))
             + 0
             + real_of_int (or_int (duration_days intent) 7 * 60 * (num_adults intent + num_children intent)))"
    by (cases ranked) (auto simp: create_balanced_itinerary_def Let_def split: if_splits)
  moreover have "flight_options state \<noteq> []" using ne len by auto
  moreover have "accommodation_options state \<noteq> []" using hne by auto
  ultimately show ?thesis using i ns by (simp add: rk)
qed


lemma create_balanced_itinerary_defined:
  assumes "parsed_intent state = Some intent"
    and "flight_options state \<noteq> []" and "accommodation_options state \<noteq> []"
    and "\<forall>f \<in> set (flight_options state). number_of_stops f \<noteq> 3"
  shows "\<exists>it. create_balanced_itinerary state = Some it"
proof -
  have s: "sorted_by balanced_key (flight_options state) = Inr (sort_key balanced_metric (flight_options state))"
    by (rule sorted_by_balanced_ok[OF assms(4)])
  obtain x xs where c: "sort_key balanced_metric (flight_options state) = x # xs"
    using assms(2) by (cases "sort_key balanced_metric (flight_options state)") auto
  show ?thesis
    unfolding create_balanced_itinerary_def s c
    using assms(1) assms(3) by (simp add: Let_def)
qed

lemma create_balanced_itinerary_three_stops:
  assumes "f \<in> set (flight_options state)" and "number_of_stops f = 3"
  shows "create_balanced_itinerary state = None"
proof (cases "sorted_by balanced_key (flight_options state)")
  case (Inl e)
  then show ?thesis by (simp add: create_balanced_itinerary_def)
next
  case (Inr ranked)
  from sorted_by_balanced_Inr[OF this] assms show ?thesis by blast
qed



lemmas synth_eval_defs = create_balanced_itinerary_def create_budget_itinerary_def create_premium_itinerary_def
  sorted_by_def balanced_key_def float_div_def sample_state_def sample_intent_def sample_hotel_def
  hotel_80_def hotel_220_def flight_a_def flight_b_def flight_c_def new_Itinerary_def calculate_total_def
  sort_desc_def



subsection \<open>Cost breakdown\<close>

lemma create_budget_costs:
  assumes "create_budget_itinerary state = Some it"
  shows "\<exists>intent. parsed_intent state = Some intent \<and> style_tag it = ''Budget'' \<and> costs_add_up it intent 40"
  using assms
  by (auto simp: create_budget_itinerary_def new_Itinerary_def calculate_total_def costs_add_up_def Let_def
           split: list.splits option.splits)

lemma create_premium_costs:
  assumes "create_premium_itinerary state = Some it"
  shows "\<exists>intent. parsed_intent state = Some intent \<and> style_tag it = ''Luxury'' \<and> costs_add_up it intent 100"
  using assms
  by (auto simp: create_premium_itinerary_def new_Itinerary_def calculate_total_def costs_add_up_def Let_def
           split: list.splits option.splits)

lemma create_balanced_costs:
  assumes "create_balanced_itinerary state = Some it"
  shows "\<exists>intent. parsed_intent state = Some intent \<and> style_tag it = ''Balanced Family'' \<and> costs_add_up it intent 60"
proof -
  from create_balanced_itinerary_SomeD[OF assms] obtain intent where
    "parsed_intent state = Some intent" and
    "it = new_Itinerary (''Balanced Option - '' @ show_opt_str (destination intent)) ''Balanced Family''
                   (sort_key balanced_metric (flight_options state) ! (length (flight_options state) div 2))
                   [sort_key price_per_night (accommodation_options state)
                      ! (if length (accommodation_options state) = 2 then 0 else length (accommodation_options state) div 2)]
                   (total_price (sort_key balanced_metric (flight_options state) ! (length (flight_options state) div 2)))
                   (htotal_price (sort_key price_per_night (accommodation_options state)
                      ! (if length (accommodation_options state) = 2 then 0 else length (accommodation_options state) div 2)))
                   0
                   (real_of_int (or_int (duration_days intent) 7 * 60 * (num_adults intent + num_children intent)))
                   (total_price (sort_key balanced_metric (flight_options state) ! (length (flight_options state) div 2))
                    + htotal_price (sort_key price_per_night (accommodation_options state)
                      ! (if length (accommodation_options state) = 2 then 0 else length (accommodation_options state) div 2))
                    + 0
                    + real_of_int (or_int (duration_days intent) 7 * 60 * (num_adults intent + num_children intent)))"
    by blast
  then show ?thesis
    by (simp add: new_Itinerary_def calculate_total_def costs_add_up_def)
qed

lemma in_set_append_if: "x \<in> set (append_if xs y) \<longleftrightarrow> x \<in> set xs \<or> y = Some x"
  by (cases y) auto

text \<open>
  C5, as amended. Every itinerary the synthesizer builds (budget, balanced, premium) has
  flight cost equal to the selected flight's total price, lodging cost equal to the sum of
  the selected lodgings' total prices, activities cost zero, food cost equal to D times the
  style rate (40, 60, 100) times the number of adults and children, where D is
  \<open>duration_days\<close>, or 7 when \<open>duration_days\<close> is absent or 0; and a total cost equal to the
  sum of the four components. Infants are not counted.
\<close>

theorem itinerary_costs:
  "(create_budget_itinerary state = Some it \<longrightarrow>
      (\<exists>intent. parsed_intent state = Some intent \<and> costs_add_up it intent 40))
   \<and> (create_balanced_itinerary state = Some it \<longrightarrow>
      (\<exists>intent. parsed_intent state = Some intent \<and> costs_add_up it intent 60))
   \<and> (create_premium_itinerary state = Some it \<longrightarrow>
      (\<exists>intent. parsed_intent state = Some intent \<and> costs_add_up it intent 100))
   \<and> (flight_options state \<noteq> [] \<and> accommodation_options state \<noteq> [] \<and> it \<in> set (itineraries (synthesize state)) \<longrightarrow>
      (\<exists>intent. parsed_intent state = Some intent \<and> costs_add_up it intent (food_rate (style_tag it))))"
proof (intro conjI impI)
  show "\<exists>intent. parsed_intent state = Some intent \<and> costs_add_up it intent 40"
    if "create_budget_itinerary state = Some it"
    using create_budget_costs[OF that] by blast
  show "\<exists>intent. parsed_intent state = Some intent \<and> costs_add_up it intent 60"
    if "create_balanced_itinerary state = Some it"
    using create_balanced_costs[OF that] by blast
  show "\<exists>intent. parsed_intent state = Some intent \<and> costs_add_up it intent 100"
    if "create_premium_itinerary state = Some it"
    using create_premium_costs[OF that] by blast
  show "\<exists>intent. parsed_intent state = Some intent \<and> costs_add_up it intent (food_rate (style_tag it))"
    if a: "flight_options state \<noteq> [] \<and> accommodation_options state \<noteq> [] \<and> it \<in> set (itineraries (synthesize state))"
  proof -
    let ?s1 = "state\<lparr>agent_messages := agent_messages state @ [''Synthesis Agent: Creating your personalized itineraries...'']\<rparr>"
    from a have f: "flight_options state \<noteq> []" and h: "accommodation_options state \<noteq> []"
      and m: "it \<in> set (itineraries (synthesize state))" by simp_all
    from m f h have "it \<in> set (append_if (append_if (append_if [] (create_budget_itinerary ?s1))
                                   (create_balanced_itinerary ?s1)) (create_premium_itinerary ?s1))"
      by (simp add: synthesize_def Let_def)
    then consider "create_budget_itinerary ?s1 = Some it" | "create_balanced_itinerary ?s1 = Some it"
      | "create_premium_itinerary ?s1 = Some it"
      by (auto simp: in_set_append_if)
    then show ?thesis
    proof cases
      case 1
      from create_budget_costs[OF this] show ?thesis by (auto simp: food_rate_def)
    next
      case 2
      from create_balanced_costs[OF this] show ?thesis by (auto simp: food_rate_def)
    next
      case 3
      from create_premium_costs[OF this] show ?thesis by (auto simp: food_rate_def)
    qed
  qed
qed

text \<open>
  The theorem on a request of 10 days for 2 adults: the budget itinerary costs
  300 + 560 + 0 + 800 = 1660.
\<close>

theorem itinerary_costs_witness:
  "\<exists>it. create_budget_itinerary (sample_state [flight_b, flight_a, flight_c] [hotel_220, hotel_80] sample_intent) = Some it
        \<and> flight_cost it = 300 \<and> accommodation_cost it = 560 \<and> activities_cost it = 0
        \<and> estimated_food_cost it = 800 \<and> total_cost it = 1660
        \<and> costs_add_up it sample_intent 40"
proof -
  let ?S = "sample_state [flight_b, flight_a, flight_c] [hotel_220, hotel_80] sample_intent"
  let ?it = "new_Itinerary ''Budget Option - Rome'' ''Budget'' flight_a [hotel_80] 300 560 0 800 1660"
  have e: "create_budget_itinerary ?S = Some ?it"
    by (simp add: synth_eval_defs)
  have p: "parsed_intent ?S = Some sample_intent" by (simp add: sample_state_def)
  from itinerary_costs[of ?S ?it] e p have "costs_add_up ?it sample_intent 40" by simp
  with e show ?thesis by (simp add: new_Itinerary_def calculate_total_def)
qed

text \<open>
  C5, as stated, fails: for a request without dates and \<open>duration_days\<close> (2 adults, 1 infant) the food
  cost of the budget itinerary is 7 * 40 * 2 = 560, so it is no product with
  \<open>duration_days\<close>; and for a request of 10 days with 2 adults and 1 infant it is
  10 * 40 * 2 = 800, the infant not being counted among the three travelers.
\<close>

theorem food_cost_default_counterexample:
  "(\<exists>it. create_budget_itinerary (sample_state [flight_a] [hotel_80] intent_no_duration) = Some it
         \<and> estimated_food_cost it = 560)
   \<and> duration_days intent_no_duration = None
   \<and> (\<exists>it. create_budget_itinerary (sample_state [flight_a] [hotel_80] intent_with_infant) = Some it
         \<and> estimated_food_cost it = 800)
   \<and> duration_days intent_with_infant = Some 10
   \<and> num_adults intent_with_infant + num_children intent_with_infant + num_infants intent_with_infant = 3"
  by (simp add: synth_eval_defs intent_no_duration_def intent_with_infant_def)

section \<open>Properties of the search orchestrator and the workflow\<close>

subsection \<open>Search orchestrator\<close>

lemma search_returns: "\<exists>state'. search flight_results hotel_results state = Inr state'"
  by (auto simp: search_def Let_def split: option.splits sum.splits)

lemma handle_results_flight_failed:
  "handle_results (Inl e) (Inr hotels) state =
     state\<lparr>errors := errors state @ [''Flight search error: '' @ str_exn e],
            flight_options := [], accommodation_options := hotels\<rparr>"
  by (simp add: handle_results_def)

lemma handle_results_hotel_failed:
  "handle_results (Inr fls) (Inl e) state =
     state\<lparr>flight_options := fls,
            errors := errors state @ [''Hotel search error: '' @ str_exn e],
            accommodation_options := []\<rparr>"
  by (simp add: handle_results_def)

lemma handle_results_both_failed:
  "handle_results (Inl e) (Inl e') state =
     state\<lparr>errors := errors state @ [''Flight search error: '' @ str_exn e, ''Hotel search error: '' @ str_exn e'],
            flight_options := [], accommodation_options := []\<rparr>"
  by (simp add: handle_results_def)

lemma search_flight_failed:
  assumes "parsed_intent state = Some intent"
    and "optimize_hotels hotels (total_budget intent) (style_value (travel_style intent)) = Inr selected"
  shows "search (Inl e) (Inr hotels) state =
     Inr (state\<lparr>agent_messages := agent_messages state @
                   [''Search Orchestrator: Searching for flights and hotels...'',
                    ''Search Orchestrator: Found 0 flights and '' @ show_nat (length selected) @ '' hotels''],
                 errors := errors state @ [''Flight search error: '' @ str_exn e],
                 flight_options := [],
                 accommodation_options := selected,
                 current_step := ''search_complete''\<rparr>)"
  using assms by (simp add: search_def search_try_def handle_results_def Let_def digit_char_def)

lemma search_hotel_failed:
  assumes "parsed_intent state = Some intent"
  shows "\<exists>state'. search (Inr fls) (Inl e) state = Inr state'
           \<and> accommodation_options state' = []
           \<and> ''Hotel search error: '' @ str_exn e \<in> set (errors state')
           \<and> (case optimize_flights fls (total_budget intent) of
                 Inr kept \<Rightarrow> flight_options state' = kept
               | Inl z \<Rightarrow> flight_options state' = fls)"
  using assms
  by (auto simp: search_def search_try_def handle_results_def Let_def split: sum.splits)

lemma ainvoke_past_search:
  assumes "fst (should_continue_after_intent (parse_intent llm state)) = Continue"
  shows "take 3 (fst (ainvoke llm (search flight_results hotel_results) taste_profile_node synthesis_node state))
           = [''parse_intent'', ''search'', ''taste_profile'']"
proof -
  obtain s2 where g: "should_continue_after_intent (parse_intent llm state) = (Continue, s2)"
    using assms by (cases "should_continue_after_intent (parse_intent llm state)") auto
  obtain s3 where s: "search flight_results hotel_results s2 = Inr s3"
    using search_returns by blast
  show ?thesis
    by (simp add: ainvoke_def Let_def g s split: sum.splits prod.splits decision.splits)
qed

text \<open>
  C2. The search method returns a state for every pair of branch outcomes: no exception
  leaves it. When the flight branch raises, storing the results sets the flight pool to
  the empty list, appends \<open>Flight search error: ...\<close> to the error list and stores the
  lodging results as they came; symmetrically when the lodging branch raises; and both
  when both raise. For a request that is present, the state returned after a flight
  failure has no flights, the one new error, and the lodging results as optimized; after a
  lodging failure it has no lodging, the error in its list, and the flights as optimized
  (or as found, when optimizing them divides by zero). Whatever the two outcomes, a run
  that passed the first gate goes on from the search node to the taste profile node.
\<close>

theorem search_branch_failure_contained:
  "(\<exists>state'. search flight_results hotel_results state = Inr state')
   \<and> handle_results (Inl e) (Inr hotels) state =
       state\<lparr>errors := errors state @ [''Flight search error: '' @ str_exn e],
              flight_options := [], accommodation_options := hotels\<rparr>
   \<and> handle_results (Inr fls) (Inl e) state =
       state\<lparr>flight_options := fls,
              errors := errors state @ [''Hotel search error: '' @ str_exn e],
              accommodation_options := []\<rparr>
   \<and> handle_results (Inl e) (Inl e') state =
       state\<lparr>errors := errors state @ [''Flight search error: '' @ str_exn e, ''Hotel search error: '' @ str_exn e'],
              flight_options := [], accommodation_options := []\<rparr>
   \<and> (parsed_intent state = Some intent \<longrightarrow>
         (\<exists>state'. search (Inl e) (Inr hotels) state = Inr state'
            \<and> flight_options state' = []
            \<and> errors state' = errors state @ [''Flight search error: '' @ str_exn e]
            \<and> optimize_hotels hotels (total_budget intent) (style_value (travel_style intent))
                  = Inr (accommodation_options state'))
       \<and> (\<exists>state'. search (Inr fls) (Inl e) state = Inr state'
            \<and> accommodation_options state' = []
            \<and> ''Hotel search error: '' @ str_exn e \<in> set (errors state')
            \<and> (case optimize_flights fls (total_budget intent) of
                  Inr kept \<Rightarrow> flight_options state' = kept
                | Inl z \<Rightarrow> flight_options state' = fls)))
   \<and> (fst (should_continue_after_intent (parse_intent llm state)) = Continue \<longrightarrow>
         take 3 (fst (ainvoke llm (search flight_results hotel_results) taste_profile_node synthesis_node state))
           = [''parse_intent'', ''search'', ''taste_profile''])"
proof (intro conjI impI)
  show "\<exists>state'. search flight_results hotel_results state = Inr state'" by (rule search_returns)
  show "handle_results (Inl e) (Inr hotels) state =
       state\<lparr>errors := errors state @ [''Flight search error: '' @ str_exn e],
              flight_options := [], accommodation_options := hotels\<rparr>"
    by (rule handle_results_flight_failed)
  show "handle_results (Inr fls) (Inl e) state =
       state\<lparr>flight_options := fls,
              errors := errors state @ [''Hotel search error: '' @ str_exn e],
              accommodation_options := []\<rparr>"
    by (rule handle_results_hotel_failed)
  show "handle_results (Inl e) (Inl e') state =
       state\<lparr>errors := errors state @ [''Flight search error: '' @ str_exn e, ''Hotel search error: '' @ str_exn e'],
              flight_options := [], accommodation_options := []\<rparr>"
    by (rule handle_results_both_failed)
  show "\<exists>state'. search (Inl e) (Inr hotels) state = Inr state'
            \<and> flight_options state' = []
            \<and> errors state' = errors state @ [''Flight search error: '' @ str_exn e]
            \<and> optimize_hotels hotels (total_budget intent) (style_value (travel_style intent))
                  = Inr (accommodation_options state')"
    if "parsed_intent state = Some intent"
  proof -
    obtain ranked where
      r: "optimize_hotels hotels (total_budget intent) (style_value (travel_style intent))
            = Inr (select_by_price_range ranked)"
      using optimize_hotels_cases by blast
    show ?thesis
      unfolding search_flight_failed[OF that r] r by simp
  qed
  show "\<exists>state'. search (Inr fls) (Inl e) state = Inr state'
            \<and> accommodation_options state' = []
            \<and> ''Hotel search error: '' @ str_exn e \<in> set (errors state')
            \<and> (case optimize_flights fls (total_budget intent) of
                  Inr kept \<Rightarrow> flight_options state' = kept
                | Inl z \<Rightarrow> flight_options state' = fls)"
    if "parsed_intent state = Some intent"
    using search_hotel_failed[OF that] .
  show "take 3 (fst (ainvoke llm (search flight_results hotel_results) taste_profile_node synthesis_node state))
           = [''parse_intent'', ''search'', ''taste_profile'']"
    if "fst (should_continue_after_intent (parse_intent llm state)) = Continue"
    using ainvoke_past_search[OF that] .
qed

text \<open>
  The theorem on a request for Rome: the flight branch times out, the lodging branch
  returns one hotel; and with both branches timing out the run still reaches the taste
  profile node.
\<close>

theorem search_branch_failure_contained_witness:
  "parsed_intent (sample_state [] [] sample_intent) = Some sample_intent
   \<and> (\<exists>state'. search (Inl (ProviderError ''timeout'')) (Inr [hotel_80]) (sample_state [] [] sample_intent) = Inr state'
         \<and> flight_options state' = []
         \<and> errors state' = [''Flight search error: timeout'']
         \<and> accommodation_options state' = [hotel_80])
   \<and> fst (should_continue_after_intent (parse_intent (\<lambda>m. Inr sample_intent) (initial_state ''Rome for 10 days''))) = Continue
   \<and> take 3 (fst (ainvoke (\<lambda>m. Inr sample_intent) (search (Inl (ProviderError ''timeout'')) (Inl (ProviderError ''timeout'')))
                     Inr (\<lambda>s. Inr (synthesize s)) (initial_state ''Rome for 10 days'')))
        = [''parse_intent'', ''search'', ''taste_profile'']"
proof -
  have p: "parsed_intent (sample_state [] [] sample_intent) = Some sample_intent"
    by (simp add: sample_state_def)
  have g: "fst (should_continue_after_intent (parse_intent (\<lambda>m. Inr sample_intent) (initial_state ''Rome for 10 days''))) = Continue"
    by (simp add: should_continue_after_intent_def parse_intent_def initial_state_def sample_intent_def)
  have o: "optimize_hotels [hotel_80] (total_budget sample_intent) (style_value (travel_style sample_intent)) = Inr [hotel_80]"
    by (simp add: sample_intent_def hotel_80_def sample_hotel_def score_hotel_def select_by_price_range_def
          sort_desc_def)
  have e: "errors (sample_state [] [] sample_intent) = []" by (simp add: sample_state_def)
  note T = search_branch_failure_contained[of "Inl (ProviderError ''timeout'')" "Inl (ProviderError ''timeout'')"
      "sample_state [] [] sample_intent" "ProviderError ''timeout''" "[hotel_80]" "[]" "ProviderError ''timeout''" sample_intent
      "\<lambda>m. Inr sample_intent" Inr "\<lambda>s. Inr (synthesize s)"]
  from T have "parsed_intent (sample_state [] [] sample_intent) = Some sample_intent \<longrightarrow>
      (\<exists>state'. search (Inl (ProviderError ''timeout'')) (Inr [hotel_80]) (sample_state [] [] sample_intent) = Inr state'
         \<and> flight_options state' = []
         \<and> errors state' = errors (sample_state [] [] sample_intent) @ [''Flight search error: '' @ str_exn (ProviderError ''timeout'')]
         \<and> optimize_hotels [hotel_80] (total_budget sample_intent) (style_value (travel_style sample_intent))
               = Inr (accommodation_options state'))"
    by blast
  with p have "\<exists>state'. search (Inl (ProviderError ''timeout'')) (Inr [hotel_80]) (sample_state [] [] sample_intent) = Inr state'
         \<and> flight_options state' = []
         \<and> errors state' = errors (sample_state [] [] sample_intent) @ [''Flight search error: '' @ str_exn (ProviderError ''timeout'')]
         \<and> optimize_hotels [hotel_80] (total_budget sample_intent) (style_value (travel_style sample_intent))
               = Inr (accommodation_options state')"
    by blast
  then have 1: "\<exists>state'. search (Inl (ProviderError ''timeout'')) (Inr [hotel_80]) (sample_state [] [] sample_intent) = Inr state'
         \<and> flight_options state' = []
         \<and> errors state' = [''Flight search error: timeout'']
         \<and> accommodation_options state' = [hotel_80]"
    unfolding o e by auto
  note U = search_branch_failure_contained[of "Inl (ProviderError ''timeout'')" "Inl (ProviderError ''timeout'')"
      "initial_state ''Rome for 10 days''" "ProviderError ''timeout''" "[]" "[]" "ProviderError ''timeout''" sample_intent
      "\<lambda>m. Inr sample_intent" Inr "\<lambda>s. Inr (synthesize s)"]
  from U have "fst (should_continue_after_intent (parse_intent (\<lambda>m. Inr sample_intent) (initial_state ''Rome for 10 days''))) = Continue
     \<longrightarrow> take 3 (fst (ainvoke (\<lambda>m. Inr sample_intent) (search (Inl (ProviderError ''timeout'')) (Inl (ProviderError ''timeout'')))
                     Inr (\<lambda>s. Inr (synthesize s)) (initial_state ''Rome for 10 days'')))
        = [''parse_intent'', ''search'', ''taste_profile'']"
    by blast
  with g have 2: "take 3 (fst (ainvoke (\<lambda>m. Inr sample_intent) (search (Inl (ProviderError ''timeout'')) (Inl (ProviderError ''timeout'')))
                     Inr (\<lambda>s. Inr (synthesize s)) (initial_state ''Rome for 10 days'')))
        = [''parse_intent'', ''search'', ''taste_profile'']"
    by blast
  from p 1 g 2 show ?thesis by blast
qed

subsection \<open>The gate after intent parsing\<close>











section \<open>Properties of the provider fallback chains\<close>

subsection \<open>Flights\<close>

lemma first_nonempty_step:
  "first_nonempty api ((oc, d) # rest) calls =
     (case search_route api oc d calls of
        (found, calls') \<Rightarrow> if found \<noteq> [] then (found, calls') else first_nonempty api rest calls')"
  by (auto simp: search_route_def split: sum.splits list.splits)

lemma first_nonempty_append:
  "first_nonempty api (xs @ ys) calls =
     (case first_nonempty api xs calls of
        ([], c) \<Rightarrow> first_nonempty api ys c
      | (r, c) \<Rightarrow> (r, c))"
proof (induction xs arbitrary: calls)
  case Nil
  then show ?case by simp
next
  case (Cons x xs)
  obtain oc d where x: "x = (oc, d)" by (cases x)
  show ?case
    unfolding x append_Cons first_nonempty_step
    by (auto simp: Cons.IH search_route_def split: sum.splits list.splits prod.splits)
qed

lemma try_destinations_plan:
  "try_destinations api oc ds calls =
     (case first_nonempty api (map (\<lambda>d. (oc, d)) ds) calls of
        ([], c) \<Rightarrow> (None, c)
      | (r, c) \<Rightarrow> (Some r, c))"
proof (induction ds arbitrary: calls)
  case Nil
  then show ?case by simp
next
  case (Cons d ds)
  show ?case
    unfolding list.map first_nonempty_step try_destinations.simps
    by (auto simp: Cons.IH search_route_def split: sum.splits list.splits prod.splits)
qed

lemma try_origins_plan:
  "try_origins api d os calls =
     (case first_nonempty api (map (\<lambda>oc. (oc, d)) os) calls of
        ([], c) \<Rightarrow> (None, c)
      | (r, c) \<Rightarrow> (Some r, c))"
proof (induction os arbitrary: calls)
  case Nil
  then show ?case by simp
next
  case (Cons oc os)
  show ?case
    unfolding list.map first_nonempty_step try_origins.simps
    by (auto simp: Cons.IH search_route_def split: sum.splits list.splits prod.splits)
qed

lemma try_combinations_plan:
  "try_combinations api os ds calls =
     (case first_nonempty api (concat (map (\<lambda>oc. map (\<lambda>d. (oc, d)) ds) os)) calls of
        ([], c) \<Rightarrow> (None, c)
      | (r, c) \<Rightarrow> (Some r, c))"
proof (induction os arbitrary: calls)
  case Nil
  then show ?case by simp
next
  case (Cons oc os)
  show ?case
    unfolding list.map concat.simps first_nonempty_append try_combinations.simps try_destinations_plan
    by (auto simp: Cons.IH split: sum.splits list.splits prod.splits)
qed

lemma amadeus_search_flights_plan:
  assumes "origin intent = Some org" "org \<noteq> []" "destination intent = Some dst" "dst \<noteq> []"
    and "departure_date intent = Some dep" "return_date intent = Some ret"
  shows "amadeus_search_flights api iata alternatives intent calls =
           first_nonempty api
             (amadeus_plan (iata org) (iata dst) (alternatives org (iata org)) (alternatives dst (iata dst)))
             calls"
proof -
  have "amadeus_search_flights api iata alternatives intent calls =
          (case search_route api (iata org) (iata dst) calls of
             (found, calls0) \<Rightarrow>
               if found \<noteq> [] then (found, calls0)
               else
                 (case try_destinations api (iata org) (alternatives dst (iata dst)) calls0 of
                    (Some r, calls1) \<Rightarrow> (r, calls1)
                  | (None, calls1) \<Rightarrow>
                     (case try_origins api (iata dst) (alternatives org (iata org)) calls1 of
                        (Some r, calls2) \<Rightarrow> (r, calls2)
                      | (None, calls2) \<Rightarrow>
                         (case try_combinations api (take 2 (alternatives org (iata org))) (take 2 (alternatives dst (iata dst))) calls2 of
                            (Some r, calls3) \<Rightarrow> (r, calls3)
                          | (None, calls3) \<Rightarrow> ([], calls3)))))"
    using assms by (simp add: amadeus_search_flights_def Let_def)
  also have "\<dots> = first_nonempty api
             (amadeus_plan (iata org) (iata dst) (alternatives org (iata org)) (alternatives dst (iata dst)))
             calls"
    unfolding amadeus_plan_def append_Cons append_Nil first_nonempty_step first_nonempty_append
      try_destinations_plan try_origins_plan try_combinations_plan
    by (auto split: prod.splits list.splits)
  finally show ?thesis .
qed

lemma amadeus_search_flights_fallback_plan:
  "amadeus_search_flights api iata alternatives intent calls
     = first_nonempty api (fallback_plan iata alternatives intent) calls"
proof (cases "request_complete intent")
  case True
  then obtain org dst dep ret where
    h: "origin intent = Some org" "org \<noteq> []" "destination intent = Some dst" "dst \<noteq> []"
       "departure_date intent = Some dep" "return_date intent = Some ret"
    by (cases "origin intent"; cases "destination intent") (auto simp: request_complete_def)
  have "fallback_plan iata alternatives intent
          = amadeus_plan (iata org) (iata dst) (alternatives org (iata org)) (alternatives dst (iata dst))"
    using True h by (simp add: fallback_plan_def)
  then show ?thesis
    using amadeus_search_flights_plan[OF h] by simp
next
  case False
  then have "fallback_plan iata alternatives intent = []"
    by (simp add: fallback_plan_def split: option.splits)
  moreover have "amadeus_search_flights api iata alternatives intent calls = ([], calls)"
    using False by (auto simp: amadeus_search_flights_def request_complete_def split: option.splits)
  ultimately show ?thesis by simp
qed

lemma step_yields_0:
  "step_yields api calls ((oc, d) # rest) 0 = (case api calls oc d of Inl e \<Rightarrow> [] | Inr r \<Rightarrow> r)"
  by (simp add: step_yields_def route_calls_def)

lemma step_yields_Suc:
  "step_yields api calls ((oc, d) # rest) (Suc k) = step_yields api (calls @ [Amadeus_route oc d]) rest k"
  by (simp add: step_yields_def route_calls_def)

lemma route_calls_Cons: "route_calls ((oc, d) # rest) = Amadeus_route oc d # route_calls rest"
  by (simp add: route_calls_def)

lemma all_less_Suc: "(\<forall>k < Suc n. P k) \<longleftrightarrow> P 0 \<and> (\<forall>k < n. P (Suc k))"
  by (auto simp: less_Suc_eq_0_disj)

lemma first_nonempty_outcome:
  "(fst (first_nonempty api plan calls) = []
      \<and> snd (first_nonempty api plan calls) = calls @ route_calls plan
      \<and> (\<forall>k < length plan. step_yields api calls plan k = []))
   \<or> (\<exists>k < length plan.
         fst (first_nonempty api plan calls) = step_yields api calls plan k
       \<and> step_yields api calls plan k \<noteq> []
       \<and> snd (first_nonempty api plan calls) = calls @ route_calls (take (Suc k) plan)
       \<and> (\<forall>j < k. step_yields api calls plan j = []))"
proof (induction plan arbitrary: calls)
  case Nil
  then show ?case by (simp add: route_calls_def)
next
  case (Cons x rest)
  obtain oc d where x: "x = (oc, d)" by (cases x)
  let ?c = "calls @ [Amadeus_route oc d]"
  show ?case
  proof (cases "step_yields api calls (x # rest) 0 = []")
    case False
    then have fn: "first_nonempty api (x # rest) calls = (step_yields api calls (x # rest) 0, ?c)"
      unfolding x step_yields_0 by (auto split: sum.splits list.splits)
    have "fst (first_nonempty api (x # rest) calls) = step_yields api calls (x # rest) 0
       \<and> step_yields api calls (x # rest) 0 \<noteq> []
       \<and> snd (first_nonempty api (x # rest) calls) = calls @ route_calls (take (Suc 0) (x # rest))
       \<and> (\<forall>j < 0. step_yields api calls (x # rest) j = [])"
      unfolding fn using False by (simp add: x route_calls_Cons route_calls_def)
    then show ?thesis by blast
  next
    case True
    then have fn: "first_nonempty api (x # rest) calls = first_nonempty api rest ?c"
      unfolding x step_yields_0 by (auto split: sum.splits list.splits)
    from Cons.IH[of ?c] show ?thesis
    proof (elim disjE exE conjE)
      assume a: "fst (first_nonempty api rest ?c) = []"
        "snd (first_nonempty api rest ?c) = ?c @ route_calls rest"
        "\<forall>k < length rest. step_yields api ?c rest k = []"
      have "\<forall>k < length (x # rest). step_yields api calls (x # rest) k = []"
        using True a(3) by (simp add: all_less_Suc) (simp add: x step_yields_Suc)
      then show ?thesis unfolding fn using a(1) a(2) by (simp add: x route_calls_Cons)
    next
      fix k
      assume a: "k < length rest"
        "fst (first_nonempty api rest ?c) = step_yields api ?c rest k"
        "step_yields api ?c rest k \<noteq> []"
        "snd (first_nonempty api rest ?c) = ?c @ route_calls (take (Suc k) rest)"
        "\<forall>j < k. step_yields api ?c rest j = []"
      have "Suc k < length (x # rest)
       \<and> fst (first_nonempty api (x # rest) calls) = step_yields api calls (x # rest) (Suc k)
       \<and> step_yields api calls (x # rest) (Suc k) \<noteq> []
       \<and> snd (first_nonempty api (x # rest) calls) = calls @ route_calls (take (Suc (Suc k)) (x # rest))
       \<and> (\<forall>j < Suc k. step_yields api calls (x # rest) j = [])"
        unfolding fn using a True by (simp add: all_less_Suc) (simp add: x step_yields_Suc route_calls_Cons)
      then show ?thesis by blast
    qed
  qed
qed

text \<open>
  C7. Flight search calls provider A (SerpAPI) first and returns its list when that is not
  empty, without calling provider B. When A raises or returns the empty list, the result
  is that of trying the routes of the request's plan in order on provider B (Amadeus)
  until one yields flights. For a complete request the plan is: the primary route, then
  the alternate destinations, then the alternate origins, then the pairs of the first two
  alternate origins with the first two alternate destinations (B accepts no request
  without origin, destination and both dates, and tries no route for it). Trying a plan
  either finds nothing, with every route tried and each yielding nothing, and the result
  is the empty list; or returns what step \<open>k\<close> yields, with the steps before \<open>k\<close> yielding
  nothing and no step after \<open>k\<close> made.
\<close>

theorem flight_fallback_chain:
  "(serpapi calls = Inr (f # fs) \<longrightarrow>
      search_flights_async serpapi api iata alternatives intent calls = (f # fs, calls @ [SerpAPI_flights]))
   \<and> (serpapi calls = Inl e \<or> serpapi calls = Inr [] \<longrightarrow>
      search_flights_async serpapi api iata alternatives intent calls =
        first_nonempty api (fallback_plan iata alternatives intent) (calls @ [SerpAPI_flights]))
   \<and> (request_complete intent \<and> origin intent = Some org \<and> destination intent = Some dst \<longrightarrow>
      fallback_plan iata alternatives intent
        = [(iata org, iata dst)]
          @ map (\<lambda>d. (iata org, d)) (alternatives dst (iata dst))
          @ map (\<lambda>oc. (oc, iata dst)) (alternatives org (iata org))
          @ concat (map (\<lambda>oc. map (\<lambda>d. (oc, d)) (take 2 (alternatives dst (iata dst))))
                      (take 2 (alternatives org (iata org)))))
   \<and> ((fst (first_nonempty api plan calls') = []
        \<and> snd (first_nonempty api plan calls') = calls' @ route_calls plan
        \<and> (\<forall>k < length plan. step_yields api calls' plan k = []))
      \<or> (\<exists>k < length plan.
            fst (first_nonempty api plan calls') = step_yields api calls' plan k
          \<and> step_yields api calls' plan k \<noteq> []
          \<and> snd (first_nonempty api plan calls') = calls' @ route_calls (take (Suc k) plan)
          \<and> (\<forall>j < k. step_yields api calls' plan j = [])))"
proof (intro conjI impI)
  show "search_flights_async serpapi api iata alternatives intent calls = (f # fs, calls @ [SerpAPI_flights])"
    if "serpapi calls = Inr (f # fs)"
    using that by (simp add: search_flights_async_def)
  show "search_flights_async serpapi api iata alternatives intent calls =
        first_nonempty api (fallback_plan iata alternatives intent) (calls @ [SerpAPI_flights])"
    if "serpapi calls = Inl e \<or> serpapi calls = Inr []"
    using that by (auto simp: search_flights_async_def amadeus_search_flights_fallback_plan)
  show "fallback_plan iata alternatives intent
        = [(iata org, iata dst)]
          @ map (\<lambda>d. (iata org, d)) (alternatives dst (iata dst))
          @ map (\<lambda>oc. (oc, iata dst)) (alternatives org (iata org))
          @ concat (map (\<lambda>oc. map (\<lambda>d. (oc, d)) (take 2 (alternatives dst (iata dst))))
                      (take 2 (alternatives org (iata org))))"
    if "request_complete intent \<and> origin intent = Some org \<and> destination intent = Some dst"
    using that by (simp add: fallback_plan_def amadeus_plan_def)
  show "(fst (first_nonempty api plan calls') = []
        \<and> snd (first_nonempty api plan calls') = calls' @ route_calls plan
        \<and> (\<forall>k < length plan. step_yields api calls' plan k = []))
      \<or> (\<exists>k < length plan.
            fst (first_nonempty api plan calls') = step_yields api calls' plan k
          \<and> step_yields api calls' plan k \<noteq> []
          \<and> snd (first_nonempty api plan calls') = calls' @ route_calls (take (Suc k) plan)
          \<and> (\<forall>j < k. step_yields api calls' plan j = []))"
    by (rule first_nonempty_outcome)
qed

text \<open>
  The theorem on a request from Copenhagen to Rome where A returns nothing and B has
  flights only to the second alternate airport: three routes are tried, in order.
\<close>

theorem flight_fallback_chain_witness:
  "request_complete sample_intent
   \<and> search_flights_async (\<lambda>calls. Inr []) ciampino_only sample_iata sample_alternatives sample_intent []
     = ([flight_a], [SerpAPI_flights, Amadeus_route ''CPH'' ''ROM'', Amadeus_route ''CPH'' ''FCO'',
                     Amadeus_route ''CPH'' ''CIA''])
   \<and> fallback_plan sample_iata sample_alternatives sample_intent
       = [(''CPH'', ''ROM''), (''CPH'', ''FCO''), (''CPH'', ''CIA'')]"
proof -
  note T = flight_fallback_chain[of "\<lambda>calls. Inr []" "[]" flight_a "[]" ciampino_only sample_iata sample_alternatives
      sample_intent "ProviderError ''x''" "''Copenhagen''" "''Rome''"
      "fallback_plan sample_iata sample_alternatives sample_intent" "[SerpAPI_flights]"]
  have c: "request_complete sample_intent \<and> origin sample_intent = Some ''Copenhagen'' \<and> destination sample_intent = Some ''Rome''"
    by (simp add: request_complete_def sample_intent_def)
  from T have "request_complete sample_intent \<and> origin sample_intent = Some ''Copenhagen'' \<and> destination sample_intent = Some ''Rome''
      \<longrightarrow> fallback_plan sample_iata sample_alternatives sample_intent
        = [(sample_iata ''Copenhagen'', sample_iata ''Rome'')]
          @ map (\<lambda>d. (sample_iata ''Copenhagen'', d)) (sample_alternatives ''Rome'' (sample_iata ''Rome''))
          @ map (\<lambda>oc. (oc, sample_iata ''Rome'')) (sample_alternatives ''Copenhagen'' (sample_iata ''Copenhagen''))
          @ concat (map (\<lambda>oc. map (\<lambda>d. (oc, d)) (take 2 (sample_alternatives ''Rome'' (sample_iata ''Rome''))))
                      (take 2 (sample_alternatives ''Copenhagen'' (sample_iata ''Copenhagen''))))"
    by blast
  with c have pl: "fallback_plan sample_iata sample_alternatives sample_intent
       = [(''CPH'', ''ROM''), (''CPH'', ''FCO''), (''CPH'', ''CIA'')]"
    by (simp add: sample_iata_def sample_alternatives_def)
  from T have "(\<lambda>calls::call_log. (Inr [] :: py_exn + FlightOption list)) [] = Inl (ProviderError ''x'')
        \<or> (\<lambda>calls::call_log. (Inr [] :: py_exn + FlightOption list)) [] = Inr [] \<longrightarrow>
      search_flights_async (\<lambda>calls. Inr []) ciampino_only sample_iata sample_alternatives sample_intent []
       = first_nonempty ciampino_only (fallback_plan sample_iata sample_alternatives sample_intent) ([] @ [SerpAPI_flights])"
    by blast
  then have "search_flights_async (\<lambda>calls. Inr []) ciampino_only sample_iata sample_alternatives sample_intent []
       = first_nonempty ciampino_only [(''CPH'', ''ROM''), (''CPH'', ''FCO''), (''CPH'', ''CIA'')] [SerpAPI_flights]"
    unfolding pl by simp
  also have "\<dots> = ([flight_a], [SerpAPI_flights, Amadeus_route ''CPH'' ''ROM'', Amadeus_route ''CPH'' ''FCO'',
                     Amadeus_route ''CPH'' ''CIA''])"
    by (simp add: ciampino_only_def)
  finally show ?thesis using pl c by simp
qed

subsection \<open>Lodging\<close>








end
